theory Spec2Isabelle
  imports Complex_Main "HOL-Library.Sublist" "HOL-Library.List_Lexorder" "HOL-Library.Char_ord"
begin

section \<open>Strings\<close>

text \<open>
  Task texts, prompts and file names are modelled as \<open>string\<close> (a list of 8-bit
  characters).  The source works on JavaScript strings; the model covers ASCII text,
  where \<open>toLowerCase\<close> only maps \<open>A..Z\<close> to \<open>a..z\<close> and the regular-expression class
  \<open>\w\<close> is \<open>[A-Za-z0-9_]\<close>.
\<close>

definition lower_char :: "char \<Rightarrow> char" where
  "lower_char c =
     (if CHR ''A'' \<le> c \<and> c \<le> CHR ''Z'' then char_of (of_char c + (32::nat)) else c)"

definition toLowerCase :: "string \<Rightarrow> string" where
  "toLowerCase s = map lower_char s"

text \<open>\<open>String.prototype.includes\<close>: the needle occurs as a contiguous substring.\<close>

fun str_includes :: "string \<Rightarrow> string \<Rightarrow> bool" where
  "str_includes [] needle = (needle = [])"
| "str_includes (c # cs) needle = (prefix needle (c # cs) \<or> str_includes cs needle)"

text \<open>\<open>Array.prototype.join\<close>.\<close>

fun join :: "string \<Rightarrow> string list \<Rightarrow> string" where
  "join sep [] = []"
| "join sep [x] = x"
| "join sep (x # y # ys) = x @ sep @ join sep (y # ys)"

section \<open>Mode inference (ModeInference.ts)\<close>

datatype Mode = Pr | DesignReview | Explore

record Round =
  focus :: string
  lead :: string

definition roundsByMode :: "Mode \<Rightarrow> Round list" where
  "roundsByMode m = (case m of
     Pr \<Rightarrow>
       [\<lparr>focus = ''constraints'', lead = ''SpecScribe''\<rparr>,
        \<lparr>focus = ''architecture_plan'', lead = ''EffectArchitect''\<rparr>,
        \<lparr>focus = ''tests_first'', lead = ''TestEngineer''\<rparr>,
        \<lparr>focus = ''impl'', lead = ''CodeGen''\<rparr>,
        \<lparr>focus = ''consistency_gate'', lead = ''DXEnforcer''\<rparr>,
        \<lparr>focus = ''pr_summary'', lead = ''PRWriter''\<rparr>]
   | DesignReview \<Rightarrow>
       [\<lparr>focus = ''design_principles'', lead = ''DesignPhilosopher''\<rparr>,
        \<lparr>focus = ''architecture_plan'', lead = ''EffectArchitect''\<rparr>,
        \<lparr>focus = ''consistency_gate'', lead = ''DXEnforcer''\<rparr>]
   | Explore \<Rightarrow>
       [\<lparr>focus = ''concepts'', lead = ''DesignPhilosopher''\<rparr>,
        \<lparr>focus = ''experience_goals'', lead = ''ExperienceArchitect''\<rparr>,
        \<lparr>focus = ''technical_bridge'', lead = ''TechnicalPoet''\<rparr>])"

definition planRounds :: "Mode \<Rightarrow> Round list" where
  "planRounds m = roundsByMode m"

subsection \<open>The rule-based classifier \<open>quickInferMode\<close>\<close>

text \<open>
  Both patterns of \<open>quickInferMode\<close> have the shape \<open>\b(k1|k2|...)\b\<close>.  The matcher
  below follows the regular-expression engine: it tries every start position from left
  to right; at a position it checks the assertion \<open>\b\<close>, then each alternative in turn,
  then \<open>\b\<close> again behind the alternative.  A position is given by the character before
  it (\<open>None\<close> at the start of the text) and the text that remains.
\<close>

definition is_word_char :: "char \<Rightarrow> bool" where
  "is_word_char c =
     ((CHR ''a'' \<le> c \<and> c \<le> CHR ''z'') \<or> (CHR ''A'' \<le> c \<and> c \<le> CHR ''Z'') \<or>
      (CHR ''0'' \<le> c \<and> c \<le> CHR ''9'') \<or> c = CHR ''_'')"

definition word_before :: "char option \<Rightarrow> bool" where
  "word_before prev = (case prev of None \<Rightarrow> False | Some c \<Rightarrow> is_word_char c)"

definition word_after :: "string \<Rightarrow> bool" where
  "word_after rest = (case rest of [] \<Rightarrow> False | c # _ \<Rightarrow> is_word_char c)"

definition word_boundary :: "char option \<Rightarrow> string \<Rightarrow> bool" where
  "word_boundary prev rest = (word_before prev \<noteq> word_after rest)"

definition char_behind :: "char option \<Rightarrow> string \<Rightarrow> char option" where
  "char_behind prev kw = (if kw = [] then prev else Some (last kw))"

definition match_alt :: "char option \<Rightarrow> string \<Rightarrow> string \<Rightarrow> bool" where
  "match_alt prev rest kw =
     (prefix kw rest \<and> word_boundary (char_behind prev kw) (drop (length kw) rest))"

definition match_here :: "string list \<Rightarrow> char option \<Rightarrow> string \<Rightarrow> bool" where
  "match_here kws prev rest = (word_boundary prev rest \<and> list_ex (match_alt prev rest) kws)"

fun regex_search :: "string list \<Rightarrow> char option \<Rightarrow> string \<Rightarrow> bool" where
  "regex_search kws prev [] = match_here kws prev []"
| "regex_search kws prev (c # cs) =
     (match_here kws prev (c # cs) \<or> regex_search kws (Some c) cs)"

definition regex_test :: "string list \<Rightarrow> string \<Rightarrow> bool" where
  "regex_test kws t = regex_search kws None t"

definition explore_keywords :: "string list" where
  "explore_keywords =
     [''explore'', ''brainstorm'', ''concept'', ''history'', ''aesthetic'', ''theme'',
      ''story'', ''creative'', ''innovative'', ''vision'']"

definition review_keywords :: "string list" where
  "review_keywords =
     [''review'', ''audit'', ''consistency'', ''refactor'', ''check'', ''validate'',
      ''improve'', ''optimize'', ''analyze'']"

definition quickInferMode :: "string \<Rightarrow> Mode" where
  "quickInferMode task =
     (let t = toLowerCase task in
      if regex_test explore_keywords t then Explore
      else if regex_test review_keywords t then DesignReview
      else Pr)"

text \<open>
  The classifier as the specification words it: a keyword is "contained" in the task
  text, \<open>explore\<close> needs an explore keyword and no review keyword, \<open>design_review\<close> needs a
  review keyword and no explore keyword, everything else is \<open>pr\<close>.
\<close>

definition contains_keyword :: "string list \<Rightarrow> string \<Rightarrow> bool" where
  "contains_keyword kws t = list_ex (str_includes t) kws"

definition spec_quickInferMode :: "string \<Rightarrow> Mode" where
  "spec_quickInferMode task =
     (let t = toLowerCase task in
      if contains_keyword explore_keywords t \<and> \<not> contains_keyword review_keywords t
        then Explore
      else if contains_keyword review_keywords t \<and> \<not> contains_keyword explore_keywords t
        then DesignReview
      else Pr)"

text \<open>
  What the patterns decide, stated without the matcher: some keyword occurs in the text
  as a whole word, that is, with no word character directly before or behind it.
\<close>

definition whole_word_occurs :: "string list \<Rightarrow> string \<Rightarrow> bool" where
  "whole_word_occurs kws t =
     (\<exists>pre kw post. kw \<in> set kws \<and> t = pre @ kw @ post \<and>
        (pre = [] \<or> \<not> is_word_char (last pre)) \<and>
        (post = [] \<or> \<not> is_word_char (hd post)))"

definition keyword_shaped :: "string \<Rightarrow> bool" where
  "keyword_shaped kw = (kw \<noteq> [] \<and> is_word_char (hd kw) \<and> is_word_char (last kw))"

subsection \<open>Mode-specific instructions for the DesignPhilosopher\<close>

text \<open>
  Template literals are written as the list of their lines, joined with the newline
  character.  Non-ASCII characters appear as their UTF-8 bytes.
\<close>

definition nl :: string where
  "nl = [CHR 0x0A]"

definition principles_mode_text :: string where
  "principles_mode_text = join nl
     [''You are the DesignPhilosopher operating in '' @ [CHR 0x22] @ ''principles mode'' @ [CHR 0x22] @ ''.'',
      '''',
      ''<strict_constraints>'',
      ''- Do NOT reference history, movements, or philosophy'',
      ''- Output must be concise and actionable'',
      ''- Deliver 3'' @ [CHR 0xE2, CHR 0x80, CHR 0x93] @ ''5 design principles tied to user needs and business goals'',
      ''- Prefer statements like '' @ [CHR 0x22] @ ''Use semantic tokens and OKLCH with '' @ [CHR 0xCE, CHR 0x94] @ ''L<2 across status colors'' @ [CHR 0x22] @ '' over any narrative'',
      ''- Focus on what works, not why it'' @ [CHR 0x27] @ ''s historically significant'',
      ''</strict_constraints>'']"

definition exploration_mode_text :: string where
  "exploration_mode_text = join nl
     [''You are the DesignPhilosopher operating in '' @ [CHR 0x22] @ ''exploration mode'' @ [CHR 0x22] @ ''.'',
      '''',
      ''<creative_license>'',
      ''- You MAY reference historical contexts when they inspire innovation'',
      ''- Connect concepts across disciplines and time periods'',
      ''- Explore aesthetic and philosophical dimensions'',
      ''- Build narrative around design choices'',
      ''- Think expansively about possibilities and meaning'',
      ''</creative_license>'']"

definition getDesignPhilosopherMode :: "Mode \<Rightarrow> string" where
  "getDesignPhilosopherMode mode = (case mode of
     Pr \<Rightarrow> principles_mode_text
   | DesignReview \<Rightarrow> principles_mode_text
   | Explore \<Rightarrow> exploration_mode_text)"

section \<open>Expert registry (ExpertRegistry.ts)\<close>

datatype error = Error string

record Expert =
  name :: string
  domains :: "string list"
  prompt :: string
  systemPrompt :: string

text \<open>The static catalog entry of the DesignPhilosopher.\<close>

definition DesignPhilosopher_entry :: Expert where
  "DesignPhilosopher_entry =
     \<lparr>name = ''DesignPhilosopher'',
      domains = [''visual'', ''interaction'', ''system''],
      prompt = ''Find deeper meaning and historical resonance in design choices'',
      systemPrompt = join nl
       [''You are the DesignPhilosopher expert. Your role is to find deeper meaning and historical resonance in design choices. '',
        '''',
        ''<expert_role>'',
        ''You bring historical context and timeless design principles to modern challenges. You understand how great design transcends trends and creates lasting impact through thoughtful decision-making rooted in proven principles.'',
        ''</expert_role>'',
        '''',
        ''<perspective_guidelines>'',
        ''- Reference historical design movements and their lasting principles'',
        ''- Identify timeless patterns that transcend current trends'',
        ''- Connect design decisions to deeper human needs and behaviors'',
        ''- Balance innovation with proven design wisdom'',
        ''- Focus on the '' @ [CHR 0x22] @ ''why'' @ [CHR 0x22] @ '' behind design choices, not just the '' @ [CHR 0x22] @ ''what'' @ [CHR 0x22],
        ''</perspective_guidelines>'']\<rparr>"

definition mode_name :: "Mode \<Rightarrow> string" where
  "mode_name mode = (case mode of
     Pr \<Rightarrow> ''pr'' | DesignReview \<Rightarrow> ''design_review'' | Explore \<Rightarrow> ''explore'')"

definition upper_char :: "char \<Rightarrow> char" where
  "upper_char c =
     (if CHR ''a'' \<le> c \<and> c \<le> CHR ''z'' then char_of (of_char c - (32::nat)) else c)"

definition toUpperCase :: "string \<Rightarrow> string" where
  "toUpperCase s = map upper_char s"

text \<open>
  \<open>generateRoundPrompt\<close>, the system prompt it returns.  The catalog
  \<open>conceptualExperts\<close> of the registry is a parameter; the lookup of a lead that is not
  in the catalog throws.  The user prompt, built from the task context and the
  philosophy so far, is a second, independent template and is not part of the model.
\<close>

definition generateRoundPrompt ::
  "(string \<rightharpoonup> Expert) \<Rightarrow> Round \<Rightarrow> string list \<Rightarrow> Mode \<Rightarrow> error + string" where
  "generateRoundPrompt conceptualExperts rnd experts mode =
     (case conceptualExperts (lead rnd) of
        None \<Rightarrow> Inl (Error (''Expert '' @ lead rnd @ '' not found in registry''))
      | Some leadExpert \<Rightarrow>
          (let supportingExperts =
                 List.map_filter conceptualExperts (filter (\<lambda>e. e \<noteq> lead rnd) experts);
               baseSystemPrompt =
                 (if lead rnd = ''DesignPhilosopher'' then getDesignPhilosopherMode mode
                  else systemPrompt leadExpert)
           in Inr (join nl
       [baseSystemPrompt,
        '''',
        ''<collaboration_context>'',
        ''You are participating in a multi-expert collaborative discussion. You are the LEAD expert for this round, but you must also simulate the perspectives of supporting experts to create a comprehensive synthesis.'',
        '''',
        ''Mode: '' @ toUpperCase (mode_name mode),
        ''Current Focus: '' @ focus rnd,
        '''',
        ''Supporting experts in this discussion:'',
        join nl (map (\<lambda>e. ''- '' @ name e @ '': '' @ prompt e) supportingExperts),
        ''</collaboration_context>'',
        '''',
        ''<output_instructions>'',
        ''Structure your response with clear sections:'',
        ''1. **Lead Perspective**: Your initial expert proposal as '' @ name leadExpert,
        ''2. **Supporting Insights**: Brief critiques/refinements from each supporting expert  '',
        ''3. **Synthesis**: A cohesive final insight that weaves all perspectives together'',
        '''',
        (if mode = Explore
         then ''Focus on depth, creativity, and innovative possibilities. The synthesis should be inspirational and expansive.''
         else ''Focus on practical, actionable insights. The synthesis should be concrete and implementable.''),
        ''</output_instructions>'',
        '''',
        ''<persistence>'',
        ''- You are an expert agent - provide a complete, thorough analysis before concluding'',
        ''- Never ask for clarification - make reasonable assumptions and document them'',
        ''- Only stop when you'' @ [CHR 0x27] @ ''ve delivered a comprehensive synthesis that addresses the focus area'',
        ''</persistence>''])))"

subsection \<open>The presence checks of the mode-inference trial runner\<close>

definition hasHistoricalReferences :: "string \<Rightarrow> bool" where
  "hasHistoricalReferences sp =
     (str_includes sp ''history'' \<or> str_includes sp ''historical'')"

definition hasPrinciplesOnly :: "string \<Rightarrow> bool" where
  "hasPrinciplesOnly sp =
     (str_includes sp ''principles mode'' \<or> str_includes sp ''Do NOT reference history'')"

section \<open>Output file writer (FileService.ts)\<close>

text \<open>
  The file system is a set of directories and a map from paths to file contents.  What
  the operating system answers to \<open>mkdir\<close> and \<open>writeFile\<close>, the working directory and
  the clock reading \<open>new Date().toISOString()\<close> are inputs of \<open>saveOutput\<close>.
\<close>

record file_system =
  dirs :: "string set"
  files :: "string \<rightharpoonup> string"

record file_env =
  cwd :: string
  isoString :: string
  mkdir_failure :: "string option"
  writeFile_failure :: "string option"

definition mkdir_recursive :: "string option \<Rightarrow> string \<Rightarrow> file_system \<Rightarrow> string + file_system" where
  "mkdir_recursive failure dir fs =
     (case failure of
        Some cause \<Rightarrow> Inl cause
      | None \<Rightarrow> Inr (fs\<lparr>dirs := insert dir (dirs fs)\<rparr>))"

definition writeFile :: "string option \<Rightarrow> string \<Rightarrow> string \<Rightarrow> file_system \<Rightarrow> string + file_system" where
  "writeFile failure path content fs =
     (case failure of
        Some cause \<Rightarrow> Inl cause
      | None \<Rightarrow> Inr (fs\<lparr>files := (files fs)(path \<mapsto> content)\<rparr>))"

text \<open>\<open>path.join\<close> of a normalised directory and one path segment.\<close>

definition path_join :: "string \<Rightarrow> string \<Rightarrow> string" where
  "path_join dir seg =
     (if dir = [] then seg
      else if last dir = CHR ''/'' then dir @ seg
      else dir @ ''/'' @ seg)"

definition is_lower_alnum :: "char \<Rightarrow> bool" where
  "is_lower_alnum c =
     ((CHR ''a'' \<le> c \<and> c \<le> CHR ''z'') \<or> (CHR ''0'' \<le> c \<and> c \<le> CHR ''9''))"

text \<open>\<open>.replace(/[^a-z0-9]+/g, "_")\<close>: each maximal run becomes one underscore.\<close>

function replace_non_alnum_runs :: "string \<Rightarrow> string" where
  "replace_non_alnum_runs [] = []"
| "replace_non_alnum_runs (c # cs) =
     (if is_lower_alnum c then c # replace_non_alnum_runs cs
      else CHR ''_'' # replace_non_alnum_runs (dropWhile (\<lambda>d. \<not> is_lower_alnum d) cs))"
  by pat_completeness auto
termination
  by (relation "measure length") (auto simp: less_Suc_eq_le length_dropWhile_le)

text \<open>\<open>.replace(/[:.]/g, "-")\<close>.\<close>

definition replace_colon_dot :: "string \<Rightarrow> string" where
  "replace_colon_dot s = map (\<lambda>c. if c = CHR '':'' \<or> c = CHR ''.'' then CHR ''-'' else c) s"

text \<open>Two underscores in a row somewhere in a string.\<close>

fun adjacent_underscores :: "string \<Rightarrow> bool" where
  "adjacent_underscores (c # d # cs) =
     ((c = CHR ''_'' \<and> d = CHR ''_'') \<or> adjacent_underscores (d # cs))"
| "adjacent_underscores _ = False"

definition sanitizedTaskName :: "string \<Rightarrow> string" where
  "sanitizedTaskName taskName = take 50 (replace_non_alnum_runs (toLowerCase taskName))"

definition output_filename :: "string \<Rightarrow> string \<Rightarrow> string" where
  "output_filename taskName isoText =
     sanitizedTaskName taskName @ ''_'' @ replace_colon_dot isoText @ ''.md''"

definition saveOutput ::
  "file_env \<Rightarrow> string \<Rightarrow> string \<Rightarrow> file_system \<Rightarrow> (error + string) \<times> file_system" where
  "saveOutput env taskName content fs =
     (let outputDir = path_join (cwd env) ''output'' in
      case mkdir_recursive (mkdir_failure env) outputDir fs of
        Inl cause \<Rightarrow> (Inl (Error (''Failed to create output directory: '' @ cause)), fs)
      | Inr fs1 \<Rightarrow>
          (let filename = output_filename taskName (isoString env);
               filepath = path_join outputDir filename
           in case writeFile (writeFile_failure env) filepath content fs1 of
                Inl cause \<Rightarrow> (Inl (Error (''Failed to write output file: '' @ cause)), fs1)
              | Inr fs2 \<Rightarrow> (Inr filepath, fs2)))"

text \<open>
  The file name the specification announces for a task: the sanitised name directly
  followed by the timestamp and the extension.
\<close>

definition spec_output_filename :: "string \<Rightarrow> string \<Rightarrow> string" where
  "spec_output_filename sanitized isoText = sanitized @ replace_colon_dot isoText @ ''.md''"

text \<open>A sample environment and file system.\<close>

definition example_env :: file_env where
  "example_env = \<lparr>cwd = ''/home/dev/app'', isoString = ''2024-01-15T10:30:45.123Z'',
      mkdir_failure = None, writeFile_failure = None\<rparr>"

definition example_fs :: file_system where
  "example_fs = \<lparr>dirs = {''/home/dev/app''}, files = Map.empty\<rparr>"

section \<open>Expert-interaction bookkeeping (OpenAIService.ts)\<close>

record ExpertInteraction =
  expertName :: string
  round_key :: string
  callCount :: int
  insights :: "string list"
  responseId :: "string option"

text \<open>
  The field \<open>round\<close> of the source is \<open>round_key\<close> here.  \<open>responseId\<close> is optional; the
  test \<open>if (interaction.responseId)\<close> holds for a defined, non-empty string.
\<close>

definition truthy :: "string option \<Rightarrow> bool" where
  "truthy v = (case v of None \<Rightarrow> False | Some s \<Rightarrow> s \<noteq> [])"

definition same_key :: "ExpertInteraction \<Rightarrow> ExpertInteraction \<Rightarrow> bool" where
  "same_key interaction i =
     (expertName i = expertName interaction \<and> round_key i = round_key interaction)"

fun find_index :: "('a \<Rightarrow> bool) \<Rightarrow> 'a list \<Rightarrow> nat option" where
  "find_index P [] = None"
| "find_index P (x # xs) =
     (if P x then Some 0 else map_option Suc (find_index P xs))"

definition merge_interaction :: "ExpertInteraction \<Rightarrow> ExpertInteraction \<Rightarrow> ExpertInteraction" where
  "merge_interaction existing interaction =
     existing\<lparr>callCount := callCount existing + callCount interaction,
              insights := insights existing @ insights interaction,
              responseId := (if truthy (responseId interaction) then responseId interaction
                             else responseId existing)\<rparr>"

definition trackExpertInteraction ::
  "ExpertInteraction \<Rightarrow> ExpertInteraction list \<Rightarrow> ExpertInteraction list" where
  "trackExpertInteraction interaction expertInteractions =
     (case find_index (same_key interaction) expertInteractions of
        Some k \<Rightarrow>
          expertInteractions[k := merge_interaction (expertInteractions ! k) interaction]
      | None \<Rightarrow> expertInteractions @ [interaction])"

text \<open>\<open>getExpertInteractions\<close>: the returned list and the list kept by the service.\<close>

definition getExpertInteractions ::
  "ExpertInteraction list \<Rightarrow> ExpertInteraction list \<times> ExpertInteraction list" where
  "getExpertInteractions expertInteractions = (expertInteractions, expertInteractions)"

definition interaction_key :: "ExpertInteraction \<Rightarrow> string \<times> string" where
  "interaction_key i = (expertName i, round_key i)"

text \<open>Two recorded calls with the same key.\<close>

definition call1 :: ExpertInteraction where
  "call1 = \<lparr>expertName = ''DesignPhilosopher'', round_key = ''historical_grounding'',
     callCount = 1, insights = [''first''], responseId = Some ''resp_1''\<rparr>"

definition call2 :: ExpertInteraction where
  "call2 = \<lparr>expertName = ''DesignPhilosopher'', round_key = ''historical_grounding'',
     callCount = 2, insights = [''second''], responseId = None\<rparr>"

definition call3 :: ExpertInteraction where
  "call3 = \<lparr>expertName = ''DesignPhilosopher'', round_key = ''historical_grounding'',
     callCount = 1, insights = [''third''], responseId = Some ''resp_3''\<rparr>"

section \<open>Dynamic agent factory (DynamicAgentFactory.ts)\<close>

text \<open>
  The table \<open>dynamic_agents\<close> is the list of its rows in insertion order; \<open>id\<close> is its
  primary key, so an insert of a present id fails.  The JSON columns hold the lists they
  encode.  The cache is a map from keys to agents.  The replies of the model provider,
  the JSON parser's verdict on them and the two clock readings of a call are collected
  in \<open>factory_env\<close>.  The fields \<open>id\<close>, \<open>name\<close>, \<open>domain\<close>, \<open>expertise\<close>, \<open>prompt\<close>
  and \<open>capabilities\<close> carry the prefixes \<open>agent_\<close>, \<open>spec_\<close> and \<open>row_\<close>.  The column
  \<open>success_rate\<close>, a double-precision number in the source, is a real number here.
\<close>

record DynamicAgent =
  agent_id :: string
  agent_name :: string
  agent_domain :: string
  agent_expertise :: "string list"
  agent_prompt :: string
  agent_capabilities :: "string list"
  createdAt :: nat
  taskContext :: string

record AgentSpec =
  spec_name :: string
  spec_domain :: string
  spec_expertise :: "string list"
  spec_capabilities :: "string list"
  spec_systemPrompt :: string

record agent_row =
  row_id :: string
  row_name :: string
  row_domain :: string
  row_expertise :: "string list"
  row_prompt :: string
  row_capabilities :: "string list"
  created_at :: nat
  task_context :: string
  usage_count :: nat
  success_rate :: real

record factory =
  db :: "agent_row list"
  agentCache :: "string \<rightharpoonup> DynamicAgent"

record factory_env =
  spec_response :: "error + string"
  parse_spec :: "string \<Rightarrow> AgentSpec option"
  enhance_response :: "error + string"
  improve_response :: "error + string"
  date_now :: nat
  new_date :: nat

record feedback =
  success :: bool
  improvements :: "string list option"

definition digit_char :: "nat \<Rightarrow> char" where
  "digit_char d = ''0123456789'' ! d"

fun decimal :: "nat \<Rightarrow> string" where
  "decimal n =
     (if n < 10 then [digit_char n]
      else decimal (n div 10) @ [digit_char (n mod 10)])"

declare decimal.simps [simp del]

definition is_space :: "char \<Rightarrow> bool" where
  "is_space c = (c \<in> set [CHR '' '', CHR 0x09, CHR 0x0A, CHR 0x0B, CHR 0x0C, CHR 0x0D])"



definition row_of_agent :: "DynamicAgent \<Rightarrow> agent_row" where
  "row_of_agent agent =
     \<lparr>row_id = agent_id agent, row_name = agent_name agent, row_domain = agent_domain agent,
      row_expertise = agent_expertise agent, row_prompt = agent_prompt agent,
      row_capabilities = agent_capabilities agent, created_at = createdAt agent,
      task_context = taskContext agent, usage_count = 0, success_rate = 0\<rparr>"

definition storeAgent :: "DynamicAgent \<Rightarrow> factory \<Rightarrow> error + factory" where
  "storeAgent agent st =
     (if list_ex (\<lambda>r. row_id r = agent_id agent) (db st)
      then Inl (Error ''UNIQUE constraint failed: dynamic_agents.id'')
      else Inr (st\<lparr>db := db st @ [row_of_agent agent]\<rparr>))"


definition newSuccessRate :: "agent_row \<Rightarrow> bool \<Rightarrow> real" where
  "newSuccessRate currentStats succ =
     (let totalSuccesses = success_rate currentStats * real (usage_count currentStats)
      in (totalSuccesses + (if succ then 1 else 0)) / real (usage_count currentStats + 1))"

definition updateSuccessRate :: "string \<Rightarrow> bool \<Rightarrow> factory \<Rightarrow> factory" where
  "updateSuccessRate agentId succ st =
     (case find (\<lambda>r. row_id r = agentId) (db st) of
        None \<Rightarrow> st
      | Some currentStats \<Rightarrow>
          st\<lparr>db := map (\<lambda>r. if row_id r = agentId
                                then r\<lparr>success_rate := newSuccessRate currentStats succ,
                                        usage_count := usage_count r + 1\<rparr>
                                else r) (db st)\<rparr>)"




definition evolveAgent ::
  "factory_env \<Rightarrow> string \<Rightarrow> feedback \<Rightarrow> factory \<Rightarrow> (error + DynamicAgent) \<times> factory" where
  "evolveAgent env agentId fb st =
     (case agentCache st agentId of
        None \<Rightarrow> (Inl (Error (''Agent '' @ agentId @ '' not found'')), st)
      | Some agent \<Rightarrow>
          (let st1 = updateSuccessRate agentId (success fb) st in
           case improvements fb of
             None \<Rightarrow> (Inr agent, st1)
           | Some imps \<Rightarrow>
               if imps = [] then (Inr agent, st1)
               else
                 (case improve_response env of
                    Inl e \<Rightarrow> (Inl e, st1)
                  | Inr improvedPrompt \<Rightarrow>
                      (let evolvedAgent =
                             agent\<lparr>agent_id := agent_id agent @ ''-v'' @ decimal (date_now env),
                                   agent_prompt := improvedPrompt,
                                   createdAt := new_date env\<rparr>
                       in case storeAgent evolvedAgent st1 of
                            Inl e \<Rightarrow> (Inl e, st1)
                          | Inr st2 \<Rightarrow>
                              (Inr evolvedAgent,
                               st2\<lparr>agentCache :=
                                     (agentCache st2)(agent_id evolvedAgent \<mapsto> evolvedAgent)\<rparr>)))))"

text \<open>A sample factory with one persisted and cached agent, and sample environments.\<close>

definition stored_agent :: DynamicAgent where
  "stored_agent =
     \<lparr>agent_id = ''vizspecialist_1700000000000'', agent_name = ''vizSpecialist'',
      agent_domain = ''viz'', agent_expertise = [''charts''],
      agent_prompt = ''You are a specialist in viz. Focus on: charts'',
      agent_capabilities = [''charts''], createdAt = 1700000000000,
      taskContext = ''dashboard''\<rparr>"

definition stored_factory :: factory where
  "stored_factory =
     \<lparr>db = [(row_of_agent stored_agent)\<lparr>usage_count := 3, success_rate := 0.5\<rparr>],
      agentCache = [''vizspecialist_1700000000000'' \<mapsto> stored_agent]\<rparr>"

text \<open>The same table behind a cache that does not hold the agent.\<close>

definition uncached_factory :: factory where
  "uncached_factory = stored_factory\<lparr>agentCache := Map.empty\<rparr>"

definition evolve_env :: factory_env where
  "evolve_env =
     \<lparr>spec_response = Inl (Error ''unused''), parse_spec = (\<lambda>_. None),
      enhance_response = Inl (Error ''unused''),
      improve_response = Inr ''You are a sharper specialist in viz.'',
      date_now = 1700000000500, new_date = 1700000000501\<rparr>"



section \<open>Memory store (MemoryService.ts)\<close>

text \<open>
  The table \<open>memories\<close> is the list of its rows; the JSON columns hold the objects they
  encode, an object being the list of its entries in insertion order.  \<open>sqlite_all\<close>
  models what the database engine does with the assembled query: a statement whose WHERE
  clause is empty does not parse; otherwise the rows matching one of the LIKE patterns
  are returned, newest first (the order among equal timestamps is not fixed by SQL), at
  most three.  In a LIKE pattern \<open>%\<close> stands for any text and \<open>_\<close> for any character,
  and letters match without regard to case.  The engine's limits on the number of
  parameters and on the size of an expression are outside the model.
\<close>

type_synonym json_object = "(string \<times> string) list"

fun obj_set :: "string \<Rightarrow> string \<Rightarrow> json_object \<Rightarrow> json_object" where
  "obj_set k v [] = [(k, v)]"
| "obj_set k v ((k', v') # kvs) =
     (if k' = k then (k, v) # kvs else (k', v') # obj_set k v kvs)"

record TechnicalSpec =
  ts_name :: string
  ts_description :: string
  implementation :: string
  setupCommands :: "string list"
  criticalNotes :: "string list"

record MemoryEntry =
  entry_task :: string
  entry_philosophy :: json_object
  entry_spec :: TechnicalSpec
  entry_timestamp :: nat

record memory_row =
  mem_id :: nat
  mem_task :: string
  mem_philosophy :: json_object
  mem_spec :: TechnicalSpec
  mem_timestamp :: nat

fun split_where :: "(char \<Rightarrow> bool) \<Rightarrow> string \<Rightarrow> string list" where
  "split_where sep [] = [[]]"
| "split_where sep (c # cs) =
     (if sep c then [] # split_where sep cs
      else (case split_where sep cs of
              [] \<Rightarrow> [[c]]
            | w # ws \<Rightarrow> (c # w) # ws))"

definition split_space :: "string \<Rightarrow> string list" where
  "split_space s = split_where (\<lambda>c. c = CHR '' '') s"

fun sql_like :: "string \<Rightarrow> string \<Rightarrow> bool" where
  "sql_like [] s = (s = [])"
| "sql_like (p # ps) [] = (p = CHR ''%'' \<and> sql_like ps [])"
| "sql_like (p # ps) (c # cs) =
     (if p = CHR ''%'' then sql_like ps (c # cs) \<or> sql_like (p # ps) cs
      else (p = CHR ''_'' \<or> lower_char p = lower_char c) \<and> sql_like ps cs)"

definition where_clause :: "string list \<Rightarrow> string" where
  "where_clause kwds = join '' OR '' (map (\<lambda>_. ''LOWER(task) LIKE ?'') kwds)"

definition syntax_error_near_ORDER :: string where
  "syntax_error_near_ORDER =
     ''Error: SQLITE_ERROR: near '' @ [CHR 0x22] @ ''ORDER'' @ [CHR 0x22] @ '': syntax error''"

definition sqlite_all ::
  "string \<Rightarrow> string list \<Rightarrow> memory_row list \<Rightarrow> string + memory_row list" where
  "sqlite_all whereClause params rows =
     (if whereClause = []
      then Inl syntax_error_near_ORDER
      else Inr (take 3 (rev (sort_key mem_timestamp
             (filter (\<lambda>r. list_ex (\<lambda>p. sql_like p (toLowerCase (mem_task r))) params) rows)))))"

definition findRelevantSuccesses :: "string \<Rightarrow> memory_row list \<Rightarrow> error + string list" where
  "findRelevantSuccesses task rows =
     (let kwds = filter (\<lambda>w. length w > 3) (split_space (toLowerCase task));
          params = map (\<lambda>k. ''%'' @ k @ ''%'') kwds
      in case sqlite_all (where_clause kwds) params rows of
           Inl err \<Rightarrow> Inl (Error (''Failed to query memories: '' @ err))
         | Inr found \<Rightarrow>
             Inr (map (\<lambda>r. mem_task r @ '': '' @
                     (case map_of (mem_philosophy r) ''historicalGrounding'' of
                        None \<Rightarrow> '''' | Some g \<Rightarrow> g)) found))"

text \<open>The words of a text in the usual sense: separated by any white space.\<close>

definition whitespace_words :: "string \<Rightarrow> string list" where
  "whitespace_words s = filter (\<lambda>w. w \<noteq> []) (split_where is_space s)"

section \<open>Orchestrator (CreativeAILoop.ts)\<close>

text \<open>
  The state a run can touch: the two tiers of the memory store, the interaction list of
  the provider client and the file system.  What the user answers, what the provider
  replies to each call (named by its round), the function \<open>extractSynthesis\<close> and the
  environments of the file writer and of the memory store are collected in \<open>run_env\<close>.
  Prompts only travel to the provider and are not modelled; console output is omitted.
\<close>

record world =
  sessionMemory :: "MemoryEntry list"
  memories :: "memory_row list"
  expertInteractions :: "ExpertInteraction list"
  filesys :: file_system

record memory_env =
  store_time :: nat
  insert_failure :: "string option"

definition storeSuccess ::
  "memory_env \<Rightarrow> string \<Rightarrow> json_object \<Rightarrow> TechnicalSpec \<Rightarrow> world \<Rightarrow> (error + unit) \<times> world" where
  "storeSuccess env task philosophy spec w =
     (let w1 = w\<lparr>sessionMemory := sessionMemory w @
                   [\<lparr>entry_task = task, entry_philosophy = philosophy, entry_spec = spec,
                     entry_timestamp = store_time env\<rparr>]\<rparr>
      in case insert_failure env of
           Some cause \<Rightarrow> (Inl (Error (''Failed to store memory: '' @ cause)), w1)
         | None \<Rightarrow>
             (Inr (),
              w1\<lparr>memories := memories w1 @
                    [\<lparr>mem_id = Suc (fold max (map mem_id (memories w1)) 0),
                      mem_task = task, mem_philosophy = philosophy, mem_spec = spec,
                      mem_timestamp = store_time env\<rparr>]\<rparr>))"

record cli_responses =
  resp_constraints :: json_object
  resp_preferences :: json_object

record TaskContext =
  ctx_task :: string
  outputType :: string
  constraints :: json_object
  preferences :: json_object
  inspirationSeeds :: "string list"

record llm_reply =
  reply_content :: string
  reply_id :: "string option"

record run_env =
  ask_result :: "error + cli_responses"
  llm :: "string \<Rightarrow> error + llm_reply"
  user_feedback :: "string \<Rightarrow> error + string option"
  extractSynthesis :: "string \<Rightarrow> string"
  output_env :: file_env
  mem_env :: memory_env

record LoopResult =
  outputPath :: string
  res_philosophy :: json_object
  res_spec :: TechnicalSpec
  res_expertInteractions :: "ExpertInteraction list"

definition matches_any :: "string list \<Rightarrow> string \<Rightarrow> bool" where
  "matches_any alternatives task = list_ex (str_includes (toLowerCase task)) alternatives"

definition inferOutputType :: "string \<Rightarrow> string" where
  "inferOutputType task =
     (if matches_any [''react'', ''component'', ''ui'', ''frontend''] task then ''react_app''
      else if matches_any [''cli'', ''command'', ''terminal'', ''script''] task then ''cli_tool''
      else if matches_any [''api'', ''backend'', ''server'', ''service''] task then ''api_service''
      else if matches_any [''config'', ''settings'', ''json'', ''yaml''] task then ''configuration''
      else ''general'')"

definition interactiveTaskAnalysis ::
  "run_env \<Rightarrow> string \<Rightarrow> world \<Rightarrow> (error + TaskContext) \<times> world" where
  "interactiveTaskAnalysis env initialPrompt w =
     (case ask_result env of
        Inl e \<Rightarrow> (Inl e, w)
      | Inr responses \<Rightarrow>
          (case findRelevantSuccesses initialPrompt (memories w) of
             Inl e \<Rightarrow> (Inl e, w)
           | Inr seeds \<Rightarrow>
               (Inr \<lparr>ctx_task = initialPrompt, outputType = inferOutputType initialPrompt,
                     constraints = resp_constraints responses,
                     preferences = resp_preferences responses,
                     inspirationSeeds = seeds\<rparr>, w)))"

definition track :: "ExpertInteraction \<Rightarrow> world \<Rightarrow> world" where
  "track interaction w =
     w\<lparr>expertInteractions := trackExpertInteraction interaction (expertInteractions w)\<rparr>"

definition shouldCheckWithUser :: "Round \<Rightarrow> bool" where
  "shouldCheckWithUser rnd = (focus rnd \<in> set [''emotional_resonance'', ''technical_bridge''])"

fun conceptRounds ::
  "run_env \<Rightarrow> Round list \<Rightarrow> json_object \<Rightarrow> world \<Rightarrow> (error + json_object) \<times> world" where
  "conceptRounds env [] philosophy w = (Inr philosophy, w)"
| "conceptRounds env (rnd # rounds) philosophy w =
     (case llm env (focus rnd) of
        Inl e \<Rightarrow> (Inl e, w)
      | Inr response \<Rightarrow>
          (let synthesis = extractSynthesis env (reply_content response);
               philosophy1 = obj_set (focus rnd) synthesis philosophy;
               w1 = track \<lparr>expertName = lead rnd, round_key = focus rnd, callCount = 1,
                           insights = [synthesis], responseId = reply_id response\<rparr> w
           in if shouldCheckWithUser rnd
              then (case user_feedback env (focus rnd) of
                      Inl e \<Rightarrow> (Inl e, w1)
                    | Inr None \<Rightarrow> conceptRounds env rounds philosophy1 w1
                    | Inr (Some feedback) \<Rightarrow>
                        if feedback = [] then conceptRounds env rounds philosophy1 w1
                        else conceptRounds env rounds
                               (obj_set (focus rnd) feedback philosophy1)
                               (track \<lparr>expertName = ''User'', round_key = focus rnd,
                                       callCount = 1, insights = [feedback],
                                       responseId = None\<rparr> w1))
              else conceptRounds env rounds philosophy1 w1))"

definition developConcept ::
  "run_env \<Rightarrow> TaskContext \<Rightarrow> world \<Rightarrow> (error + json_object) \<times> world" where
  "developConcept env tctx w =
     conceptRounds env
       [\<lparr>focus = ''historical_grounding'', lead = ''DesignPhilosopher''\<rparr>,
        \<lparr>focus = ''emotional_resonance'', lead = ''ExperienceArchitect''\<rparr>,
        \<lparr>focus = ''technical_bridge'', lead = ''TechnicalPoet''\<rparr>] [] w"

definition selectTechnicalExperts :: "string \<Rightarrow> string list" where
  "selectTechnicalExperts ot =
     (if ot = ''react_app'' then [''ReactArchitect'', ''ComponentDesigner'', ''StateManager'']
      else if ot = ''cli_tool'' then [''CommandGrammar'', ''UnixPhilosopher'', ''ErrorHandler'']
      else if ot = ''api_service'' then [''APIDesigner'', ''DataModeler'', ''SecurityExpert'']
      else if ot = ''configuration'' then [''SchemaDesigner'', ''DataModeler'']
      else [''SystemArchitect'', ''CodeCraftsman''])"

definition translateToSpec ::
  "run_env \<Rightarrow> json_object \<Rightarrow> TaskContext \<Rightarrow> world \<Rightarrow> (error + TechnicalSpec) \<times> world" where
  "translateToSpec env philosophy tctx w =
     (let technicalExperts = selectTechnicalExperts (outputType tctx) in
      case llm env ''technical_specification'' of
        Inl e \<Rightarrow> (Inl e, w)
      | Inr response \<Rightarrow>
          (Inr \<lparr>ts_name = join ''_'' (take 3 (split_space (ctx_task tctx))),
                ts_description = ctx_task tctx,
                implementation = reply_content response,
                setupCommands = [], criticalNotes = []\<rparr>,
           track \<lparr>expertName = join ''+'' technicalExperts,
                   round_key = ''technical_specification'', callCount = 1,
                   insights = [reply_content response], responseId = None\<rparr> w))"

definition formatOutput ::
  "run_env \<Rightarrow> json_object \<Rightarrow> TechnicalSpec \<Rightarrow> TaskContext \<Rightarrow> world \<Rightarrow> (error + string) \<times> world" where
  "formatOutput env philosophy spec tctx w =
     (case llm env ''claude_code_instructions'' of
        Inl e \<Rightarrow> (Inl e, w)
      | Inr response \<Rightarrow>
          (let w1 = track \<lparr>expertName = ''OutputGenerator'',
                           round_key = ''claude_code_instructions'', callCount = 1,
                           insights = [''Generated final implementation guide''],
                           responseId = None\<rparr> w
           in case saveOutput (output_env env) (ctx_task tctx) (reply_content response) (filesys w1) of
                (Inl e, filesys') \<Rightarrow> (Inl e, w1\<lparr>filesys := filesys'\<rparr>)
              | (Inr path, filesys') \<Rightarrow> (Inr path, w1\<lparr>filesys := filesys'\<rparr>)))"

definition phases_0_to_3 ::
  "run_env \<Rightarrow> string \<Rightarrow> world \<Rightarrow>
     (error + TaskContext \<times> json_object \<times> TechnicalSpec \<times> string) \<times> world" where
  "phases_0_to_3 env initialPrompt w =
     (case interactiveTaskAnalysis env initialPrompt w of
        (Inl e, w0) \<Rightarrow> (Inl e, w0)
      | (Inr tctx, w0) \<Rightarrow>
     (case developConcept env tctx w0 of
        (Inl e, w1) \<Rightarrow> (Inl e, w1)
      | (Inr philosophy, w1) \<Rightarrow>
     (case translateToSpec env philosophy tctx w1 of
        (Inl e, w2) \<Rightarrow> (Inl e, w2)
      | (Inr spec, w2) \<Rightarrow>
     (case formatOutput env philosophy spec tctx w2 of
        (Inl e, w3) \<Rightarrow> (Inl e, w3)
      | (Inr path, w3) \<Rightarrow> (Inr (tctx, philosophy, spec, path), w3)))))"

definition run :: "run_env \<Rightarrow> string \<Rightarrow> world \<Rightarrow> (error + LoopResult) \<times> world" where
  "run env initialPrompt w =
     (case phases_0_to_3 env initialPrompt w of
        (Inl e, w3) \<Rightarrow> (Inl e, w3)
      | (Inr (tctx, philosophy, spec, path), w3) \<Rightarrow>
          (let interactions = fst (getExpertInteractions (expertInteractions w3)) in
           case storeSuccess (mem_env env) (ctx_task tctx) philosophy spec w3 of
             (Inl e, w4) \<Rightarrow> (Inl e, w4)
           | (Inr _, w4) \<Rightarrow>
               (Inr \<lparr>outputPath = path, res_philosophy = philosophy, res_spec = spec,
                     res_expertInteractions = interactions\<rparr>, w4)))"

text \<open>Sample sessions: one whose terminal is closed, one that runs through.\<close>

definition closed_terminal :: run_env where
  "closed_terminal =
     \<lparr>ask_result = Inl (Error ''Failed to get input: closed''),
      llm = (\<lambda>_. Inr \<lparr>reply_content = ''**Synthesis**: calm'', reply_id = None\<rparr>),
      user_feedback = (\<lambda>_. Inr None), extractSynthesis = (\<lambda>c. c),
      output_env = example_env,
      mem_env = \<lparr>store_time = 1700000000, insert_failure = None\<rparr>\<rparr>"

definition smooth_session :: run_env where
  "smooth_session =
     closed_terminal\<lparr>ask_result := Inr \<lparr>resp_constraints = [], resp_preferences = []\<rparr>\<rparr>"

definition fresh_world :: world where
  "fresh_world =
     \<lparr>sessionMemory = [], memories = [], expertInteractions = [], filesys = example_fs\<rparr>"

section \<open>Properties of round planning\<close>

text \<open>
  C2: on the base round table, \<open>planRounds\<close> of \<open>pr\<close> is the six rounds constraints,
  architecture_plan, tests_first, impl, consistency_gate, pr_summary with their leads, and
  \<open>planRounds\<close> of \<open>explore\<close> is the three rounds concepts, experience_goals,
  technical_bridge with their leads, each in this order.
\<close>

theorem planRounds_base_table:
  "planRounds Pr =
     [\<lparr>focus = ''constraints'', lead = ''SpecScribe''\<rparr>,
      \<lparr>focus = ''architecture_plan'', lead = ''EffectArchitect''\<rparr>,
      \<lparr>focus = ''tests_first'', lead = ''TestEngineer''\<rparr>,
      \<lparr>focus = ''impl'', lead = ''CodeGen''\<rparr>,
      \<lparr>focus = ''consistency_gate'', lead = ''DXEnforcer''\<rparr>,
      \<lparr>focus = ''pr_summary'', lead = ''PRWriter''\<rparr>]
   \<and> planRounds Explore =
     [\<lparr>focus = ''concepts'', lead = ''DesignPhilosopher''\<rparr>,
      \<lparr>focus = ''experience_goals'', lead = ''ExperienceArchitect''\<rparr>,
      \<lparr>focus = ''technical_bridge'', lead = ''TechnicalPoet''\<rparr>]"
  by (simp add: planRounds_def roundsByMode_def)

section \<open>Properties of the rule-based classifier\<close>

lemma regex_search_char:
  "regex_search kws prev t =
     (\<exists>pre post. t = pre @ post \<and>
        match_here kws (if pre = [] then prev else Some (last pre)) post)"
proof (induction t arbitrary: prev)
  case Nil
  then show ?case by simp
next
  case (Cons c cs)
  show ?case
  proof
    assume "regex_search kws prev (c # cs)"
    then consider "match_here kws prev (c # cs)" | "regex_search kws (Some c) cs" by auto
    then show "\<exists>pre post. c # cs = pre @ post \<and>
        match_here kws (if pre = [] then prev else Some (last pre)) post"
    proof cases
      case 1
      then show ?thesis by (intro exI[of _ "[]"] exI[of _ "c # cs"]) simp
    next
      case 2
      then obtain pre post where p: "cs = pre @ post"
          "match_here kws (if pre = [] then Some c else Some (last pre)) post"
        using Cons.IH by blast
      then show ?thesis by (intro exI[of _ "c # pre"] exI[of _ post]) auto
    qed
  next
    assume "\<exists>pre post. c # cs = pre @ post \<and>
        match_here kws (if pre = [] then prev else Some (last pre)) post"
    then obtain pre post where p: "c # cs = pre @ post"
        "match_here kws (if pre = [] then prev else Some (last pre)) post"
      by blast
    show "regex_search kws prev (c # cs)"
    proof (cases pre)
      case Nil
      with p have "post = c # cs" "match_here kws prev post" by simp_all
      then show ?thesis by simp
    next
      case (Cons a pre')
      with p have "cs = pre' @ post" "a = c" by auto
      moreover from p Cons
      have "match_here kws (if pre' = [] then Some c else Some (last pre')) post"
        by (auto split: if_splits)
      ultimately have "regex_search kws (Some c) cs" using Cons.IH by blast
      then show ?thesis by simp
    qed
  qed
qed

lemma word_after_iff: "word_after s = (s \<noteq> [] \<and> is_word_char (hd s))"
  by (cases s) (simp_all add: word_after_def)

lemma match_alt_shaped:
  assumes "keyword_shaped kw"
  shows "match_alt prev rest kw = (\<exists>post. rest = kw @ post \<and> \<not> word_after post)"
proof -
  from assms have kw: "kw \<noteq> []" "is_word_char (last kw)"
    by (simp_all add: keyword_shaped_def)
  have wb: "word_boundary (char_behind prev kw) s = (\<not> word_after s)" for s
    using kw by (simp add: word_boundary_def char_behind_def word_before_def)
  show ?thesis
  proof
    assume "match_alt prev rest kw"
    then obtain post where "rest = kw @ post"
      and "word_boundary (char_behind prev kw) (drop (length kw) rest)"
      unfolding match_alt_def prefix_def by blast
    then show "\<exists>post. rest = kw @ post \<and> \<not> word_after post"
      using wb by auto
  next
    assume "\<exists>post. rest = kw @ post \<and> \<not> word_after post"
    then obtain post where "rest = kw @ post" "\<not> word_after post" by blast
    then show "match_alt prev rest kw"
      unfolding match_alt_def using wb by simp
  qed
qed

lemma match_here_shaped:
  assumes "\<forall>kw \<in> set kws. keyword_shaped kw"
  shows "match_here kws prev rest =
     (\<not> word_before prev \<and>
      (\<exists>kw \<in> set kws. \<exists>post. rest = kw @ post \<and> \<not> word_after post))"
proof -
  have wa: "word_after (kw @ post)" if "kw \<in> set kws" for kw post
    using assms that by (auto simp: word_after_iff keyword_shaped_def)
  have "match_here kws prev rest =
      (word_boundary prev rest \<and>
       (\<exists>kw \<in> set kws. \<exists>post. rest = kw @ post \<and> \<not> word_after post))"
    using assms by (auto simp: match_here_def list_ex_iff match_alt_shaped)
  also have "\<dots> = (\<not> word_before prev \<and>
       (\<exists>kw \<in> set kws. \<exists>post. rest = kw @ post \<and> \<not> word_after post))"
    using wa by (auto simp: word_boundary_def)
  finally show ?thesis .
qed

lemma regex_test_whole_word:
  assumes "\<forall>kw \<in> set kws. keyword_shaped kw"
  shows "regex_test kws t = whole_word_occurs kws t"
proof -
  have wb: "word_before (if pre = [] then None else Some (last pre)) =
      (pre \<noteq> [] \<and> is_word_char (last pre))" for pre
    by (simp add: word_before_def)
  have "regex_test kws t =
     (\<exists>pre post. t = pre @ post \<and> \<not> (pre \<noteq> [] \<and> is_word_char (last pre)) \<and>
        (\<exists>kw \<in> set kws. \<exists>post'. post = kw @ post' \<and> \<not> word_after post'))"
    unfolding regex_test_def regex_search_char [of kws None t]
      match_here_shaped [OF assms] wb ..
  also have "\<dots> = whole_word_occurs kws t"
    unfolding whole_word_occurs_def word_after_iff by blast
  finally show ?thesis .
qed

lemma explore_keywords_shaped: "\<forall>kw \<in> set explore_keywords. keyword_shaped kw"
  by code_simp

lemma review_keywords_shaped: "\<forall>kw \<in> set review_keywords. keyword_shaped kw"
  by code_simp

text \<open>
  C1 (as stated): \<open>explore\<close> when the text contains an explore keyword and no review
  keyword, \<open>design_review\<close> when it contains a review keyword and no explore keyword,
  \<open>pr\<close> otherwise.  The code gives \<open>explore\<close> the priority: a text with a keyword of each
  list is classified \<open>explore\<close>, where the statement says \<open>pr\<close>.
\<close>

theorem quickInferMode_both_keywords_counterexample:
  "quickInferMode ''review the story'' = Explore
   \<and> spec_quickInferMode ''review the story'' = Pr"
  by code_simp

text \<open>
  A keyword that is only part of a longer word does not count either: \<open>explores\<close>
  contains \<open>explore\<close>, and the classifier answers \<open>pr\<close>.
\<close>

lemma quickInferMode_keyword_inside_word:
  "quickInferMode ''explores caves'' = Pr
   \<and> spec_quickInferMode ''explores caves'' = Explore"
  by code_simp

text \<open>
  C1 (amended): for every task text, the classifier returns \<open>explore\<close> when the
  lower-cased text has one of the explore keywords as a whole word (whether or not a
  review keyword occurs too); otherwise \<open>design_review\<close> when it has one of the review
  keywords as a whole word; otherwise \<open>pr\<close>.
\<close>

theorem quickInferMode_whole_words:
  "quickInferMode task =
     (if whole_word_occurs explore_keywords (toLowerCase task) then Explore
      else if whole_word_occurs review_keywords (toLowerCase task) then DesignReview
      else Pr)"
  by (simp add: quickInferMode_def Let_def
        regex_test_whole_word [OF explore_keywords_shaped]
        regex_test_whole_word [OF review_keywords_shaped])

theorem quickInferMode_whole_words_witness:
  "whole_word_occurs explore_keywords (toLowerCase ''Review the story'')
   \<and> quickInferMode ''Review the story'' = Explore"
proof -
  have lc: "toLowerCase ''Review the story'' = ''review the '' @ ''story'' @ []"
    by code_simp
  have kw: "''story'' \<in> set explore_keywords" by code_simp
  have nw: "\<not> is_word_char (last ''review the '')" by code_simp
  have w: "whole_word_occurs explore_keywords (toLowerCase ''Review the story'')"
    unfolding whole_word_occurs_def lc using kw nw by blast
  with quickInferMode_whole_words [of "''Review the story''"] show ?thesis by simp
qed

section \<open>Properties of the DesignPhilosopher instructions\<close>

lemma map_filter_agree:
  "(\<And>x. x \<in> set xs \<Longrightarrow> f x = g x) \<Longrightarrow> List.map_filter f xs = List.map_filter g xs"
  by (induction xs) (auto simp: List.map_filter_simps split: option.splits)

lemma principles_checks:
  "hasPrinciplesOnly principles_mode_text \<and> \<not> hasPrinciplesOnly exploration_mode_text"
  by code_simp

lemma prohibition_phrase:
  "str_includes principles_mode_text ''Do NOT reference history''
   \<and> \<not> str_includes exploration_mode_text ''Do NOT reference history''"
  by code_simp

lemma permission_phrase:
  "str_includes exploration_mode_text ''You MAY reference historical contexts''
   \<and> \<not> str_includes principles_mode_text ''You MAY reference historical contexts''"
  by code_simp

lemma generateRoundPrompt_DesignPhilosopher:
  assumes "lead rnd = ''DesignPhilosopher''" and "conceptualExperts ''DesignPhilosopher'' = Some e"
  shows "\<exists>rest. generateRoundPrompt conceptualExperts rnd experts mode =
           Inr (getDesignPhilosopherMode mode @ rest)"
  using assms by (simp add: generateRoundPrompt_def Let_def)

lemma generateRoundPrompt_ignores_static_text:
  assumes "lead rnd = ''DesignPhilosopher''" and "conceptualExperts ''DesignPhilosopher'' = Some e"
  shows "generateRoundPrompt (conceptualExperts(''DesignPhilosopher'' \<mapsto> e\<lparr>systemPrompt := other\<rparr>)) rnd experts mode =
         generateRoundPrompt conceptualExperts rnd experts mode"
proof -
  let ?ce = "conceptualExperts(''DesignPhilosopher'' \<mapsto> e\<lparr>systemPrompt := other\<rparr>)"
  have "List.map_filter ?ce (filter (\<lambda>x. x \<noteq> lead rnd) experts) =
        List.map_filter conceptualExperts (filter (\<lambda>x. x \<noteq> lead rnd) experts)"
    by (rule map_filter_agree) (simp add: assms)
  then show ?thesis
    using assms by (simp add: generateRoundPrompt_def Let_def)
qed

text \<open>
  C6 (amended): the instruction text for \<open>pr\<close> and \<open>design_review\<close> contains the
  prohibition "Do NOT reference history" and satisfies the runner's prohibition check
  (\<open>hasPrinciplesOnly\<close>), and the text for \<open>explore\<close> does neither; the text for \<open>explore\<close>
  contains the permission "You MAY reference historical contexts", and the text for the
  other two modes does not.  With lead DesignPhilosopher, the system prompt of
  \<open>generateRoundPrompt\<close> starts with this mode-dependent text and does not depend on the
  static catalog entry's \<open>systemPrompt\<close>.  (The runner's check for historical language,
  \<open>hasHistoricalReferences\<close>, does not separate the two texts.)
\<close>

theorem designPhilosopher_mode_switch:
  "lead rnd = ''DesignPhilosopher'' \<Longrightarrow> conceptualExperts ''DesignPhilosopher'' = Some e \<Longrightarrow>
   (str_includes (getDesignPhilosopherMode Pr) ''Do NOT reference history''
    \<and> str_includes (getDesignPhilosopherMode DesignReview) ''Do NOT reference history''
    \<and> \<not> str_includes (getDesignPhilosopherMode Explore) ''Do NOT reference history'')
   \<and> (hasPrinciplesOnly (getDesignPhilosopherMode Pr)
    \<and> hasPrinciplesOnly (getDesignPhilosopherMode DesignReview)
    \<and> \<not> hasPrinciplesOnly (getDesignPhilosopherMode Explore))
   \<and> (str_includes (getDesignPhilosopherMode Explore) ''You MAY reference historical contexts''
    \<and> \<not> str_includes (getDesignPhilosopherMode Pr) ''You MAY reference historical contexts''
    \<and> \<not> str_includes (getDesignPhilosopherMode DesignReview) ''You MAY reference historical contexts'')
   \<and> (\<exists>rest. generateRoundPrompt conceptualExperts rnd experts mode =
          Inr (getDesignPhilosopherMode mode @ rest))
   \<and> generateRoundPrompt
        (conceptualExperts(''DesignPhilosopher'' \<mapsto> e\<lparr>systemPrompt := other\<rparr>)) rnd experts mode =
      generateRoundPrompt conceptualExperts rnd experts mode"
  using principles_checks prohibition_phrase permission_phrase
    generateRoundPrompt_DesignPhilosopher [of rnd conceptualExperts e experts mode]
    generateRoundPrompt_ignores_static_text [of rnd conceptualExperts e other experts mode]
  by (simp add: getDesignPhilosopherMode_def)

theorem designPhilosopher_mode_switch_witness:
  "\<exists>rest. generateRoundPrompt [''DesignPhilosopher'' \<mapsto> DesignPhilosopher_entry]
       \<lparr>focus = ''concepts'', lead = ''DesignPhilosopher''\<rparr>
       [''DesignPhilosopher'', ''ExperienceArchitect''] Explore =
     Inr (exploration_mode_text @ rest)"
  using designPhilosopher_mode_switch
    [of "\<lparr>focus = ''concepts'', lead = ''DesignPhilosopher''\<rparr>"
        "[''DesignPhilosopher'' \<mapsto> DesignPhilosopher_entry]" DesignPhilosopher_entry
        "[''DesignPhilosopher'', ''ExperienceArchitect'']" Explore]
  by (simp add: getDesignPhilosopherMode_def)

text \<open>
  C6 (as stated): no presence check, for the prohibition or for the permission, is
  satisfied by both text bodies.  The trial runner's check for permitted historical
  language looks for "history" or "historical"; the prohibition itself says "history",
  so the check holds for the \<open>pr\<close> text as well as for the \<open>explore\<close> text.
\<close>

theorem presence_check_satisfied_by_both_counterexample:
  "hasHistoricalReferences (getDesignPhilosopherMode Pr)
   \<and> hasHistoricalReferences (getDesignPhilosopherMode Explore)"
  by code_simp

section \<open>Properties of the output file writer\<close>

lemma underscore_not_alnum: "\<not> is_lower_alnum CHR ''_''"
  by code_simp

lemma replace_colon_dot_chars:
  "CHR '':'' \<notin> set (replace_colon_dot s) \<and> CHR ''.'' \<notin> set (replace_colon_dot s)"
  by (auto simp: replace_colon_dot_def)

lemma replace_runs_charset:
  "c \<in> set (replace_non_alnum_runs s) \<Longrightarrow> is_lower_alnum c \<or> c = CHR ''_''"
  by (induction s rule: replace_non_alnum_runs.induct) (auto split: if_splits)

lemma filter_dropWhile_not: "filter P (dropWhile (\<lambda>d. \<not> P d) xs) = filter P xs"
  by (induction xs) auto

lemma replace_runs_keeps_alnum:
  "filter is_lower_alnum (replace_non_alnum_runs s) = filter is_lower_alnum s"
  by (induction s rule: replace_non_alnum_runs.induct)
     (auto simp: underscore_not_alnum filter_dropWhile_not)

lemma replace_runs_head:
  "replace_non_alnum_runs (dropWhile (\<lambda>d. \<not> is_lower_alnum d) cs) = r \<Longrightarrow>
   r = [] \<or> is_lower_alnum (hd r)"
proof (cases "dropWhile (\<lambda>d. \<not> is_lower_alnum d) cs")
  case Nil
  then show "replace_non_alnum_runs (dropWhile (\<lambda>d. \<not> is_lower_alnum d) cs) = r \<Longrightarrow> ?thesis" by simp
next
  case (Cons a as)
  then have "is_lower_alnum a" using hd_dropWhile [of "\<lambda>d. \<not> is_lower_alnum d" cs] by auto
  with Cons show "replace_non_alnum_runs (dropWhile (\<lambda>d. \<not> is_lower_alnum d) cs) = r \<Longrightarrow> ?thesis" by auto
qed

lemma adjacent_underscores_Cons:
  "adjacent_underscores (c # r) =
     ((c = CHR ''_'' \<and> r \<noteq> [] \<and> hd r = CHR ''_'') \<or> adjacent_underscores r)"
  by (cases r) auto

lemma replace_runs_no_adjacent: "\<not> adjacent_underscores (replace_non_alnum_runs s)"
proof (induction s rule: replace_non_alnum_runs.induct)
  case 1
  then show ?case by simp
next
  case (2 c cs)
  show ?case
  proof (cases "is_lower_alnum c")
    case True
    with 2 show ?thesis
      using underscore_not_alnum by (auto simp: adjacent_underscores_Cons)
  next
    case False
    let ?r = "replace_non_alnum_runs (dropWhile (\<lambda>d. \<not> is_lower_alnum d) cs)"
    have "?r = [] \<or> is_lower_alnum (hd ?r)" using replace_runs_head by blast
    then have "?r = [] \<or> hd ?r \<noteq> CHR ''_''" using underscore_not_alnum by auto
    with False 2 show ?thesis by (auto simp: adjacent_underscores_Cons)
  qed
qed

lemma adjacent_underscores_take:
  "adjacent_underscores (take n xs) \<Longrightarrow> adjacent_underscores xs"
proof (induction xs arbitrary: n)
  case Nil
  then show ?case by simp
next
  case (Cons c r)
  show ?case
  proof (cases n)
    case 0
    with Cons.prems show ?thesis by simp
  next
    case (Suc m)
    with Cons.prems
    have "(c = CHR ''_'' \<and> take m r \<noteq> [] \<and> hd (take m r) = CHR ''_'')
          \<or> adjacent_underscores (take m r)"
      by (simp add: adjacent_underscores_Cons)
    then show ?thesis
    proof
      assume h: "c = CHR ''_'' \<and> take m r \<noteq> [] \<and> hd (take m r) = CHR ''_''"
      then have "m > 0" "r \<noteq> []" by auto
      with h show ?thesis by (simp add: adjacent_underscores_Cons)
    next
      assume "adjacent_underscores (take m r)"
      then have "adjacent_underscores r" by (rule Cons.IH)
      then show ?thesis by (simp add: adjacent_underscores_Cons)
    qed
  qed
qed

lemma sanitized_properties:
  "length (sanitizedTaskName taskName) \<le> 50
   \<and> (\<forall>c \<in> set (sanitizedTaskName taskName). is_lower_alnum c \<or> c = CHR ''_'')
   \<and> \<not> adjacent_underscores (sanitizedTaskName taskName)
   \<and> prefix (filter is_lower_alnum (sanitizedTaskName taskName))
            (filter is_lower_alnum (toLowerCase taskName))"
proof -
  let ?r = "replace_non_alnum_runs (toLowerCase taskName)"
  have "prefix (filter is_lower_alnum (take 50 ?r)) (filter is_lower_alnum ?r)"
    by (rule filter_mono_prefix) (rule take_is_prefix)
  then have p: "prefix (filter is_lower_alnum (take 50 ?r)) (filter is_lower_alnum (toLowerCase taskName))"
    by (simp add: replace_runs_keeps_alnum)
  have c: "\<forall>c \<in> set (take 50 ?r). is_lower_alnum c \<or> c = CHR ''_''"
    using replace_runs_charset in_set_takeD by fast
  have a: "\<not> adjacent_underscores (take 50 ?r)"
    using adjacent_underscores_take replace_runs_no_adjacent by blast
  show ?thesis
    unfolding sanitizedTaskName_def using p c a by simp
qed

lemma example_sanitized: "sanitizedTaskName ''Build a CLI tool!!'' = ''build_a_cli_tool_''"
  by code_simp

lemma saveOutput_success:
  assumes "saveOutput env taskName content fs = (Inr p, fs')"
  shows "path_join (cwd env) ''output'' \<in> dirs fs'
     \<and> p = path_join (path_join (cwd env) ''output'') (output_filename taskName (isoString env))
     \<and> files fs' p = Some content"
  using assms
  by (auto simp: saveOutput_def Let_def mkdir_recursive_def writeFile_def
           split: option.splits sum.splits)

lemma saveOutput_mkdir_failure:
  assumes "mkdir_failure env = Some cause"
  shows "saveOutput env taskName content fs =
     (Inl (Error (''Failed to create output directory: '' @ cause)), fs)"
  using assms by (simp add: saveOutput_def Let_def mkdir_recursive_def)

text \<open>
  C5 (amended): for the task name "Build a CLI tool!!" the file name is
  \<open>build_a_cli_tool__<timestamp>.md\<close>, with two underscores before the timestamp (one
  for the run "!!", one separator), and the timestamp contains no \<open>:\<close> and no \<open>.\<close>;
  when \<open>saveOutput\<close> returns a path, the directory \<open>output\<close> under the working directory
  exists, the path is that directory joined with the file name, and the file holds the
  content; when creating the directory fails, \<open>saveOutput\<close> fails and writes nothing.
  The sanitised prefix has at most 50 characters, all of them lower-case letters, digits
  or underscores, never two underscores in a row, and its letters and digits are the
  leading letters and digits of the lower-cased task name, in order.
\<close>

theorem saveOutput_filename_and_order:
  "output_filename ''Build a CLI tool!!'' isoText =
      ''build_a_cli_tool__'' @ replace_colon_dot isoText @ ''.md''
   \<and> CHR '':'' \<notin> set (replace_colon_dot isoText)
   \<and> CHR ''.'' \<notin> set (replace_colon_dot isoText)
   \<and> (saveOutput env taskName content fs = (Inr p, fs') \<longrightarrow>
        path_join (cwd env) ''output'' \<in> dirs fs'
        \<and> p = path_join (path_join (cwd env) ''output'')
                (output_filename taskName (isoString env))
        \<and> files fs' p = Some content)
   \<and> (mkdir_failure env = Some cause \<longrightarrow>
        saveOutput env taskName content fs =
          (Inl (Error (''Failed to create output directory: '' @ cause)), fs))
   \<and> length (sanitizedTaskName taskName) \<le> 50
   \<and> (\<forall>c \<in> set (sanitizedTaskName taskName). is_lower_alnum c \<or> c = CHR ''_'')
   \<and> \<not> adjacent_underscores (sanitizedTaskName taskName)
   \<and> prefix (filter is_lower_alnum (sanitizedTaskName taskName))
            (filter is_lower_alnum (toLowerCase taskName))"
  using replace_colon_dot_chars [of isoText] sanitized_properties [of taskName]
    saveOutput_success [of env taskName content fs p fs']
    saveOutput_mkdir_failure [of env cause taskName content fs]
  by (simp add: output_filename_def example_sanitized)

lemma example_run:
  "saveOutput example_env ''Build a CLI tool!!'' ''# Guide'' example_fs =
     (Inr ''/home/dev/app/output/build_a_cli_tool__2024-01-15T10-30-45-123Z.md'',
      \<lparr>dirs = {''/home/dev/app/output'', ''/home/dev/app''},
       files = [''/home/dev/app/output/build_a_cli_tool__2024-01-15T10-30-45-123Z.md'' \<mapsto> ''# Guide'']\<rparr>)"
proof -
  have f: "output_filename ''Build a CLI tool!!'' ''2024-01-15T10:30:45.123Z'' = ''build_a_cli_tool__2024-01-15T10-30-45-123Z.md''"
    by code_simp
  have j1: "path_join ''/home/dev/app'' ''output'' = ''/home/dev/app/output''" by code_simp
  have j2: "path_join ''/home/dev/app/output'' ''build_a_cli_tool__2024-01-15T10-30-45-123Z.md'' =
     ''/home/dev/app/output/build_a_cli_tool__2024-01-15T10-30-45-123Z.md''" by code_simp
  show ?thesis
    by (simp add: saveOutput_def example_env_def example_fs_def Let_def mkdir_recursive_def writeFile_def f j1 j2)
qed

text \<open>
  C5 (as stated): the file name for "Build a CLI tool!!" is \<open>build_a_cli_tool_\<close>
  directly followed by the timestamp and \<open>.md\<close>.  The run "!!" already becomes an
  underscore, and the separator adds a second one.
\<close>

theorem saveOutput_filename_counterexample:
  "output_filename ''Build a CLI tool!!'' ''2024-01-15T10:30:45.123Z'' =
     ''build_a_cli_tool__2024-01-15T10-30-45-123Z.md''
   \<and> output_filename ''Build a CLI tool!!'' ''2024-01-15T10:30:45.123Z'' \<noteq>
     spec_output_filename ''build_a_cli_tool_'' ''2024-01-15T10:30:45.123Z''"
  by code_simp

theorem saveOutput_filename_and_order_witness:
  "fst (saveOutput example_env ''Build a CLI tool!!'' ''# Guide'' example_fs) =
      Inr ''/home/dev/app/output/build_a_cli_tool__2024-01-15T10-30-45-123Z.md''
   \<and> ''/home/dev/app/output'' \<in> dirs (snd (saveOutput example_env ''Build a CLI tool!!'' ''# Guide'' example_fs))
   \<and> files (snd (saveOutput example_env ''Build a CLI tool!!'' ''# Guide'' example_fs))
        ''/home/dev/app/output/build_a_cli_tool__2024-01-15T10-30-45-123Z.md'' = Some ''# Guide''
   \<and> saveOutput (example_env\<lparr>mkdir_failure := Some ''EACCES''\<rparr>) ''Build a CLI tool!!'' ''# Guide'' example_fs =
      (Inl (Error ''Failed to create output directory: EACCES''), example_fs)"
proof -
  let ?p = "''/home/dev/app/output/build_a_cli_tool__2024-01-15T10-30-45-123Z.md''"
  let ?fs = "\<lparr>dirs = {''/home/dev/app/output'', ''/home/dev/app''}, files = [?p \<mapsto> ''# Guide'']\<rparr>"
  have j1: "path_join (cwd example_env) ''output'' = ''/home/dev/app/output''"
    by code_simp
  have ok: "saveOutput example_env ''Build a CLI tool!!'' ''# Guide'' example_fs = (Inr ?p, ?fs)"
    by (rule example_run)
  have fail: "mkdir_failure (example_env\<lparr>mkdir_failure := Some ''EACCES''\<rparr>) = Some ''EACCES''"
    by simp
  from saveOutput_filename_and_order
    [where env = example_env and taskName = "''Build a CLI tool!!''" and content = "''# Guide''"
       and fs = example_fs and p = ?p and fs' = ?fs] ok j1
  have a: "''/home/dev/app/output'' \<in> dirs ?fs \<and> files ?fs ?p = Some ''# Guide''"
    by simp
  from saveOutput_filename_and_order
    [where env = "example_env\<lparr>mkdir_failure := Some ''EACCES''\<rparr>" and cause = "''EACCES''"
       and taskName = "''Build a CLI tool!!''" and content = "''# Guide''" and fs = example_fs] fail
  have b: "saveOutput (example_env\<lparr>mkdir_failure := Some ''EACCES''\<rparr>) ''Build a CLI tool!!'' ''# Guide'' example_fs =
      (Inl (Error (''Failed to create output directory: '' @ ''EACCES'')), example_fs)"
    by blast
  from a b ok show ?thesis by simp
qed

section \<open>Properties of the interaction bookkeeping\<close>

lemma find_index_None: "find_index P xs = None \<longleftrightarrow> (\<forall>x \<in> set xs. \<not> P x)"
  by (induction xs) auto

lemma find_index_first:
  "\<forall>x \<in> set pre. \<not> P x \<Longrightarrow> P e \<Longrightarrow> find_index P (pre @ e # post) = Some (length pre)"
  by (induction pre) auto

lemma same_key_iff: "same_key interaction i = (interaction_key i = interaction_key interaction)"
  by (simp add: same_key_def interaction_key_def)

lemma track_fresh:
  assumes "\<forall>i \<in> set xs. interaction_key i \<noteq> interaction_key new"
  shows "trackExpertInteraction new xs = xs @ [new]"
proof -
  have "find_index (same_key new) xs = None"
    using assms by (simp add: find_index_None same_key_iff)
  then show ?thesis by (simp add: trackExpertInteraction_def)
qed

lemma track_existing:
  assumes "\<forall>i \<in> set pre. interaction_key i \<noteq> interaction_key new"
    and "interaction_key e = interaction_key new"
  shows "trackExpertInteraction new (pre @ e # post) = pre @ merge_interaction e new # post"
proof -
  have "find_index (same_key new) (pre @ e # post) = Some (length pre)"
    using assms by (intro find_index_first) (simp_all add: same_key_iff)
  then show ?thesis by (simp add: trackExpertInteraction_def)
qed

lemma merge_key: "interaction_key (merge_interaction e new) = interaction_key e"
  by (simp add: merge_interaction_def interaction_key_def)

lemma split_first:
  "\<exists>x \<in> set xs. P x \<Longrightarrow> \<exists>pre e post. xs = pre @ e # post \<and> (\<forall>x \<in> set pre. \<not> P x) \<and> P e"
  using split_list_first_prop [of xs P] by blast

lemma track_keys:
  "map interaction_key (trackExpertInteraction new xs) =
     (if interaction_key new \<in> set (map interaction_key xs) then map interaction_key xs
      else map interaction_key xs @ [interaction_key new])"
proof (cases "\<exists>i \<in> set xs. interaction_key i = interaction_key new")
  case True
  then obtain pre e post where d: "xs = pre @ e # post"
      "\<forall>i \<in> set pre. interaction_key i \<noteq> interaction_key new" "interaction_key e = interaction_key new"
    using split_first [of xs "\<lambda>i. interaction_key i = interaction_key new"] by blast
  from True obtain i where "i \<in> set xs" "interaction_key i = interaction_key new" by blast
  then have "interaction_key new \<in> interaction_key ` set xs" by (metis imageI)
  then have "interaction_key new \<in> set (map interaction_key xs)" by simp
  moreover have "map interaction_key (trackExpertInteraction new xs) = map interaction_key xs"
    using d track_existing [of pre new e post] by (simp add: merge_key)
  ultimately show ?thesis by simp
next
  case False
  then have "interaction_key new \<notin> set (map interaction_key xs)" by auto
  moreover have "trackExpertInteraction new xs = xs @ [new]"
    using False by (intro track_fresh) blast
  ultimately show ?thesis by simp
qed

lemma track_distinct:
  "distinct (map interaction_key xs) \<Longrightarrow> distinct (map interaction_key (trackExpertInteraction new xs))"
  by (simp add: track_keys)

lemma track_all_distinct:
  "distinct (map interaction_key xs) \<Longrightarrow>
   distinct (map interaction_key (foldl (\<lambda>s i. trackExpertInteraction i s) xs calls))"
  by (induction calls arbitrary: xs) (simp_all add: track_distinct)

lemma find_key_append:
  "find P (xs @ ys) = (case find P xs of None \<Rightarrow> find P ys | Some x \<Rightarrow> Some x)"
  by (induction xs) auto

lemma find_key_None: "find P xs = None \<longleftrightarrow> (\<forall>x \<in> set xs. \<not> P x)"
  by (induction xs) auto

lemma find_split:
  "find P xs = Some e \<Longrightarrow> \<exists>pre post. xs = pre @ e # post \<and> (\<forall>x \<in> set pre. \<not> P x) \<and> P e"
proof (induction xs)
  case Nil
  then show ?case by simp
next
  case (Cons a xs)
  show ?case
  proof (cases "P a")
    case True
    with Cons.prems have "a = e" by simp
    with True show ?thesis by (intro exI [of _ "[]"] exI [of _ xs]) simp
  next
    case False
    with Cons.prems have "find P xs = Some e" by simp
    then obtain pre post where "xs = pre @ e # post" "\<forall>x \<in> set pre. \<not> P x" "P e"
      using Cons.IH by blast
    with False show ?thesis by (intro exI [of _ "a # pre"] exI [of _ post]) simp
  qed
qed

lemma find_first:
  "\<forall>x \<in> set pre. \<not> P x \<Longrightarrow> P e \<Longrightarrow> find P (pre @ e # post) = Some e"
  by (induction pre) auto

lemma find_other:
  "\<forall>x \<in> set pre. \<not> Q x \<Longrightarrow> Q e \<Longrightarrow> Q e' \<Longrightarrow> (\<And>x. P x \<Longrightarrow> \<not> Q x) \<Longrightarrow>
   find P (pre @ e' # post) = find P (pre @ e # post)"
  by (induction pre) auto

lemma lookup_track:
  "find (\<lambda>i. interaction_key i = k) (trackExpertInteraction new xs) =
     (if k = interaction_key new
      then Some (case find (\<lambda>i. interaction_key i = k) xs of
                   None \<Rightarrow> new | Some e \<Rightarrow> merge_interaction e new)
      else find (\<lambda>i. interaction_key i = k) xs)"
proof (cases "find (\<lambda>i. interaction_key i = interaction_key new) xs")
  case None
  then have fresh: "\<forall>i \<in> set xs. interaction_key i \<noteq> interaction_key new"
    by (simp add: find_key_None)
  have t: "trackExpertInteraction new xs = xs @ [new]" by (rule track_fresh [OF fresh])
  show ?thesis
  proof (cases "k = interaction_key new")
    case True
    with None show ?thesis by (simp add: t find_key_append)
  next
    case False
    then show ?thesis by (simp add: t find_key_append split: option.splits)
  qed
next
  case (Some e)
  from find_split [OF Some] obtain pre post where xs: "xs = pre @ e # post"
    and pre: "\<forall>i \<in> set pre. interaction_key i \<noteq> interaction_key new"
    and e: "interaction_key e = interaction_key new"
    by blast
  have t: "trackExpertInteraction new (pre @ e # post) = pre @ merge_interaction e new # post"
    by (rule track_existing [OF pre e])
  have Some': "find (\<lambda>i. interaction_key i = interaction_key new) (pre @ e # post) = Some e"
    using Some by (simp add: xs)
  have me: "interaction_key (merge_interaction e new) = interaction_key new"
    by (simp add: merge_key e)
  show ?thesis
  proof (cases "k = interaction_key new")
    case True
    have "find (\<lambda>i. interaction_key i = interaction_key new) (pre @ merge_interaction e new # post)
        = Some (merge_interaction e new)"
      using pre me by (intro find_first) simp_all
    with True Some' show ?thesis unfolding xs by (simp add: t)
  next
    case False
    have "find (\<lambda>i. interaction_key i = k) (pre @ merge_interaction e new # post) =
          find (\<lambda>i. interaction_key i = k) (pre @ e # post)"
      using pre e me False
      by (intro find_other [where Q = "\<lambda>i. interaction_key i = interaction_key new"]) auto
    with False show ?thesis unfolding xs by (simp add: t)
  qed
qed

lemma foldl_track_snoc:
  "foldl (\<lambda>s i. trackExpertInteraction i s) xs (calls @ [c]) =
   trackExpertInteraction c (foldl (\<lambda>s i. trackExpertInteraction i s) xs calls)"
  by simp

lemma track_all_lookup:
  "find (\<lambda>i. interaction_key i = k) (foldl (\<lambda>s i. trackExpertInteraction i s) [] calls) = None
     \<longleftrightarrow> k \<notin> interaction_key ` set calls"
proof (induction calls rule: rev_induct)
  case Nil
  then show ?case by simp
next
  case (snoc c calls)
  show ?case
    unfolding foldl_track_snoc lookup_track using snoc.IH by auto
qed

lemma track_all_totals:
  "find (\<lambda>i. interaction_key i = k) (foldl (\<lambda>s i. trackExpertInteraction i s) [] calls) = Some r
   \<Longrightarrow> callCount r = sum_list (map callCount (filter (\<lambda>i. interaction_key i = k) calls))
     \<and> insights r = concat (map insights (filter (\<lambda>i. interaction_key i = k) calls))"
proof (induction calls arbitrary: r rule: rev_induct)
  case Nil
  then show ?case by simp
next
  case (snoc c calls)
  let ?S = "foldl (\<lambda>s i. trackExpertInteraction i s) [] calls"
  from snoc.prems
  have l: "(if k = interaction_key c
      then Some (case find (\<lambda>i. interaction_key i = k) ?S of
                   None \<Rightarrow> c | Some e \<Rightarrow> merge_interaction e c)
      else find (\<lambda>i. interaction_key i = k) ?S) = Some r"
    unfolding foldl_track_snoc lookup_track .
  show ?case
  proof (cases "k = interaction_key c")
    case False
    with l have "find (\<lambda>i. interaction_key i = k) ?S = Some r" by simp
    from snoc.IH [OF this] False show ?thesis by auto
  next
    case True
    show ?thesis
    proof (cases "find (\<lambda>i. interaction_key i = k) ?S")
      case None
      then have "k \<notin> interaction_key ` set calls" by (simp add: track_all_lookup)
      then have "filter (\<lambda>i. interaction_key i = k) calls = []"
        by (auto simp: filter_empty_conv)
      moreover from l True None have "r = c" by simp
      ultimately show ?thesis using True by simp
    next
      case (Some e)
      with l True have "r = merge_interaction e c" by simp
      with snoc.IH [OF Some] True show ?thesis by (simp add: merge_interaction_def)
    qed
  qed
qed

lemma track_all_snapshot:
  "map_option callCount (find (\<lambda>i. interaction_key i = k)
       (foldl (\<lambda>s i. trackExpertInteraction i s) [] calls)) =
     (if k \<in> interaction_key ` set calls
      then Some (sum_list (map callCount (filter (\<lambda>i. interaction_key i = k) calls)))
      else None)
   \<and> map_option insights (find (\<lambda>i. interaction_key i = k)
       (foldl (\<lambda>s i. trackExpertInteraction i s) [] calls)) =
     (if k \<in> interaction_key ` set calls
      then Some (concat (map insights (filter (\<lambda>i. interaction_key i = k) calls)))
      else None)"
proof (cases "find (\<lambda>i. interaction_key i = k) (foldl (\<lambda>s i. trackExpertInteraction i s) [] calls)")
  case None
  then show ?thesis using track_all_lookup [of k calls] by simp
next
  case (Some r)
  then have "k \<in> interaction_key ` set calls" using track_all_lookup [of k calls] by auto
  with Some track_all_totals [OF Some] show ?thesis by simp
qed

lemma merge_responseId:
  "responseId (merge_interaction e new) =
     (case responseId new of
        None \<Rightarrow> responseId e
      | Some s \<Rightarrow> if s = [] then responseId e else Some s)"
  by (simp add: merge_interaction_def truthy_def split: option.splits)

text \<open>
  C7: recording an interaction whose (expertName, round) key is not in the list appends
  it; recording one whose key is already there changes the first record with that key
  in place and adds no record: the call counts are added, the new insights are appended,
  and a new response id that is defined and not empty replaces the old one, while an
  absent or empty one leaves the old one; every other record stays as it is.  After any
  sequence of calls from the empty list no two records share a key, and the list
  returned by \<open>getExpertInteractions\<close> holds, for every key that was recorded, one record
  whose call count is the sum and whose insights are the concatenation over the calls
  with that key, and no record for any other key.  \<open>getExpertInteractions\<close> leaves the
  kept list as it is.
\<close>

theorem trackExpertInteraction_upsert:
  "((\<forall>i \<in> set xs. interaction_key i \<noteq> interaction_key new) \<longrightarrow>
      trackExpertInteraction new xs = xs @ [new])
   \<and> ((\<forall>i \<in> set pre. interaction_key i \<noteq> interaction_key new) \<and>
       interaction_key e = interaction_key new \<longrightarrow>
      trackExpertInteraction new (pre @ e # post) =
        pre @ e\<lparr>callCount := callCount e + callCount new,
                 insights := insights e @ insights new,
                 responseId := (case responseId new of
                                  None \<Rightarrow> responseId e
                                | Some s \<Rightarrow> if s = [] then responseId e else Some s)\<rparr> # post)
   \<and> distinct (map interaction_key (foldl (\<lambda>s i. trackExpertInteraction i s) [] calls))
   \<and> map_option callCount (find (\<lambda>i. interaction_key i = k)
         (fst (getExpertInteractions (foldl (\<lambda>s i. trackExpertInteraction i s) [] calls)))) =
       (if k \<in> interaction_key ` set calls
        then Some (sum_list (map callCount (filter (\<lambda>i. interaction_key i = k) calls)))
        else None)
   \<and> map_option insights (find (\<lambda>i. interaction_key i = k)
         (fst (getExpertInteractions (foldl (\<lambda>s i. trackExpertInteraction i s) [] calls)))) =
       (if k \<in> interaction_key ` set calls
        then Some (concat (map insights (filter (\<lambda>i. interaction_key i = k) calls)))
        else None)
   \<and> snd (getExpertInteractions xs) = xs"
proof -
  have m: "merge_interaction e new =
      e\<lparr>callCount := callCount e + callCount new,
        insights := insights e @ insights new,
        responseId := (case responseId new of
                         None \<Rightarrow> responseId e
                       | Some s \<Rightarrow> if s = [] then responseId e else Some s)\<rparr>"
    by (simp add: merge_interaction_def truthy_def split: option.splits)
  have g: "fst (getExpertInteractions ys) = ys" "snd (getExpertInteractions ys) = ys" for ys
    by (simp_all add: getExpertInteractions_def)
  show ?thesis
    using track_fresh [of xs new] track_existing [of pre new e post]
      track_all_distinct [of "[]" calls] track_all_snapshot [of k calls]
    unfolding g m by simp
qed

theorem trackExpertInteraction_upsert_witness:
  "trackExpertInteraction call1 [] = [call1]
   \<and> trackExpertInteraction call2 [call1] =
       [\<lparr>expertName = ''DesignPhilosopher'', round_key = ''historical_grounding'',
         callCount = 3, insights = [''first'', ''second''], responseId = Some ''resp_1''\<rparr>]
   \<and> trackExpertInteraction call3 [call1] =
       [\<lparr>expertName = ''DesignPhilosopher'', round_key = ''historical_grounding'',
         callCount = 2, insights = [''first'', ''third''], responseId = Some ''resp_3''\<rparr>]"
proof -
  have k: "interaction_key call1 = interaction_key call2"
    by (simp add: interaction_key_def call1_def call2_def)
  have k3: "interaction_key call1 = interaction_key call3"
    by (simp add: interaction_key_def call1_def call3_def)
  from trackExpertInteraction_upsert [where xs = "[]" and new = call1]
  have a: "trackExpertInteraction call1 [] = [call1]" by simp
  from trackExpertInteraction_upsert [where pre = "[]" and e = call1 and new = call2 and post = "[]"] k
  have "trackExpertInteraction call2 ([] @ call1 # []) =
        [] @ call1\<lparr>callCount := callCount call1 + callCount call2,
                 insights := insights call1 @ insights call2,
                 responseId := (case responseId call2 of
                                  None \<Rightarrow> responseId call1
                                | Some s \<Rightarrow> if s = [] then responseId call1 else Some s)\<rparr> # []"
    by simp
  then have b: "trackExpertInteraction call2 [call1] =
       [\<lparr>expertName = ''DesignPhilosopher'', round_key = ''historical_grounding'',
         callCount = 3, insights = [''first'', ''second''], responseId = Some ''resp_1''\<rparr>]"
    by (simp add: call1_def call2_def)
  from trackExpertInteraction_upsert [where pre = "[]" and e = call1 and new = call3 and post = "[]"] k3
  have "trackExpertInteraction call3 ([] @ call1 # []) =
        [] @ call1\<lparr>callCount := callCount call1 + callCount call3,
                 insights := insights call1 @ insights call3,
                 responseId := (case responseId call3 of
                                  None \<Rightarrow> responseId call1
                                | Some s \<Rightarrow> if s = [] then responseId call1 else Some s)\<rparr> # []"
    by simp
  then have c: "trackExpertInteraction call3 [call1] =
       [\<lparr>expertName = ''DesignPhilosopher'', round_key = ''historical_grounding'',
         callCount = 2, insights = [''first'', ''third''], responseId = Some ''resp_3''\<rparr>]"
    by (simp add: call1_def call3_def)
  from a b c show ?thesis by simp
qed

section \<open>Properties of the dynamic agent factory\<close>

lemma find_map_update:
  assumes "find P xs = Some x" and "\<And>y. P (f y) = P y"
  shows "find P (map (\<lambda>r. if P r then f r else r) xs) = Some (f x)"
  using assms by (induction xs) (auto split: if_splits)

lemma find_append_Some: "find P xs = Some x \<Longrightarrow> find P (xs @ ys) = Some x"
  by (induction xs) (auto split: if_splits)

lemma updateSuccessRate_row:
  assumes "find (\<lambda>r. row_id r = agentId) (db st) = Some row"
  shows "find (\<lambda>r. row_id r = agentId) (db (updateSuccessRate agentId succ st)) =
     Some (row\<lparr>success_rate := newSuccessRate row succ,
                usage_count := usage_count row + 1\<rparr>)"
proof -
  let ?P = "\<lambda>r. row_id r = agentId"
  let ?f = "\<lambda>r. r\<lparr>success_rate := newSuccessRate row succ, usage_count := usage_count r + 1\<rparr>"
  have m: "find ?P (map (\<lambda>r. if ?P r then ?f r else r) (db st)) = Some (?f row)"
    by (rule find_map_update [OF assms]) simp
  have "db (updateSuccessRate agentId succ st) = map (\<lambda>r. if ?P r then ?f r else r) (db st)"
    using assms by (simp add: updateSuccessRate_def)
  then show ?thesis using m by (simp only:)
qed

lemma filter_others_update:
  "filter (\<lambda>r. row_id r \<noteq> a)
     (map (\<lambda>r. if row_id r = a then r\<lparr>success_rate := v, usage_count := usage_count r + 1\<rparr> else r) xs) =
   filter (\<lambda>r. row_id r \<noteq> a) xs"
  by (induction xs) auto

lemma updateSuccessRate_others:
  "filter (\<lambda>r. row_id r \<noteq> agentId) (db (updateSuccessRate agentId succ st)) =
   filter (\<lambda>r. row_id r \<noteq> agentId) (db st)"
proof (cases "find (\<lambda>r. row_id r = agentId) (db st)")
  case None
  then show ?thesis by (simp add: updateSuccessRate_def)
next
  case (Some cs)
  then have "db (updateSuccessRate agentId succ st) =
      map (\<lambda>r. if row_id r = agentId
                then r\<lparr>success_rate := newSuccessRate cs succ, usage_count := usage_count r + 1\<rparr>
                else r) (db st)"
    by (simp add: updateSuccessRate_def)
  then show ?thesis by (simp only: filter_others_update)
qed

lemma storeAgent_Inr:
  "storeAgent agent st = Inr st' \<Longrightarrow>
     st' = st\<lparr>db := db st @ [row_of_agent agent]\<rparr> \<and> (\<forall>r \<in> set (db st). row_id r \<noteq> agent_id agent)"
  by (auto simp: storeAgent_def list_ex_iff split: if_splits)

lemma evolveAgent_db:
  assumes "agentCache st agentId = Some agent"
  shows "\<exists>extra. db (snd (evolveAgent env agentId fb st)) =
           db (updateSuccessRate agentId (success fb) st) @ extra"
  using assms
  by (auto simp: evolveAgent_def Let_def split: option.splits sum.splits dest!: storeAgent_Inr)

lemma running_mean_bounds:
  fixes r :: real
  assumes "0 \<le> r" "r \<le> 1"
  shows "0 \<le> (r * real n + (if b then 1 else 0)) / real (n + 1)
       \<and> (r * real n + (if b then 1 else 0)) / real (n + 1) \<le> 1"
proof -
  have rn: "r * real n \<le> real n"
    using assms mult_right_mono [of r 1 "real n"] by simp
  have nn: "0 \<le> r * real n" using assms by simp
  have pos: "0 < real (n + 1)" by simp
  have "0 \<le> r * real n + (if b then 1 else 0)" using nn by simp
  then have lo: "0 \<le> (r * real n + (if b then 1 else 0)) / real (n + 1)"
    using pos by (simp del: of_nat_add of_nat_Suc)
  have "r * real n + (if b then 1 else 0) \<le> real (n + 1)" using rn by simp
  then have hi: "(r * real n + (if b then 1 else 0)) / real (n + 1) \<le> 1"
    using pos by (simp add: divide_le_eq_1 del: of_nat_add of_nat_Suc)
  from lo hi show ?thesis by blast
qed

lemma newSuccessRate_formula:
  "newSuccessRate row succ =
     (success_rate row * real (usage_count row) + (if succ then 1 else 0))
       / real (usage_count row + 1)"
  by (simp only: newSuccessRate_def Let_def)

text \<open>
  An id that is not in the cache is rejected before anything is updated, also when a row
  with that id is persisted.
\<close>

lemma evolveAgent_not_cached:
  "agentCache st agentId = None \<Longrightarrow>
   evolveAgent env agentId fb st = (Inl (Error (''Agent '' @ agentId @ '' not found'')), st)"
  by (simp add: evolveAgent_def)

text \<open>
  C4 (amended): when the agent is in the cache and its persisted row has usage_count \<open>n\<close> and
  success_rate \<open>r\<close>, then after \<open>evolveAgent\<close>, whatever else the call does, the row has
  success_rate \<open>(r * n + (if success then 1 else 0)) / (n + 1)\<close> and usage_count
  \<open>n + 1\<close>; for \<open>n = 3\<close>, \<open>r = 0.5\<close> and a success the new rate is \<open>0.625\<close>; and a rate in
  \<open>[0, 1]\<close> stays in \<open>[0, 1]\<close>.  The rate is a real number here; the source computes
  in double precision.
\<close>

theorem evolveAgent_updates_success_rate:
  "agentCache st agentId = Some agent \<Longrightarrow>
   find (\<lambda>r. row_id r = agentId) (db st) = Some row \<Longrightarrow>
   (let n = usage_count row; r = success_rate row;
        r' = (r * real n + (if success fb then 1 else 0)) / real (n + 1)
    in find (\<lambda>r. row_id r = agentId) (db (snd (evolveAgent env agentId fb st))) =
         Some (row\<lparr>success_rate := r', usage_count := n + 1\<rparr>)
       \<and> (n = 3 \<and> r = 0.5 \<and> success fb \<longrightarrow> r' = 0.625)
       \<and> (0 \<le> r \<and> r \<le> 1 \<longrightarrow> 0 \<le> r' \<and> r' \<le> 1))"
proof -
  assume c: "agentCache st agentId = Some agent"
    and f: "find (\<lambda>r. row_id r = agentId) (db st) = Some row"
  let ?n = "usage_count row" and ?r = "success_rate row"
  let ?r' = "(?r * real ?n + (if success fb then 1 else 0)) / real (?n + 1)"
  obtain extra where d: "db (snd (evolveAgent env agentId fb st)) =
      db (updateSuccessRate agentId (success fb) st) @ extra"
    using evolveAgent_db [OF c] by blast
  have "find (\<lambda>r. row_id r = agentId) (db (snd (evolveAgent env agentId fb st))) =
         Some (row\<lparr>success_rate := newSuccessRate row (success fb), usage_count := ?n + 1\<rparr>)"
    unfolding d by (rule find_append_Some) (rule updateSuccessRate_row [OF f])
  then have a: "find (\<lambda>r. row_id r = agentId) (db (snd (evolveAgent env agentId fb st))) =
         Some (row\<lparr>success_rate := ?r', usage_count := ?n + 1\<rparr>)"
    by (simp only: newSuccessRate_formula)
  have b: "?n = 3 \<and> ?r = 0.5 \<and> success fb \<longrightarrow> ?r' = 0.625" by auto
  have e: "0 \<le> ?r \<and> ?r \<le> 1 \<longrightarrow> 0 \<le> ?r' \<and> ?r' \<le> 1"
    using running_mean_bounds [of ?r ?n "success fb"] by blast
  from a b e show ?thesis unfolding Let_def by blast
qed

theorem evolveAgent_updates_success_rate_witness:
  "find (\<lambda>r. row_id r = ''vizspecialist_1700000000000'')
     (db (snd (evolveAgent evolve_env ''vizspecialist_1700000000000''
                 \<lparr>success = True, improvements = None\<rparr> stored_factory))) =
   Some ((row_of_agent stored_agent)\<lparr>success_rate := 0.625, usage_count := 4\<rparr>)"
proof -
  let ?row = "(row_of_agent stored_agent)\<lparr>usage_count := 3, success_rate := 0.5\<rparr>"
  have c: "agentCache stored_factory ''vizspecialist_1700000000000'' = Some stored_agent"
    by (simp add: stored_factory_def)
  have f: "find (\<lambda>r. row_id r = ''vizspecialist_1700000000000'') (db stored_factory) = Some ?row"
    by (simp add: stored_factory_def row_of_agent_def stored_agent_def)
  from evolveAgent_updates_success_rate
    [OF c f, of "\<lparr>success = True, improvements = None\<rparr>" evolve_env]
  show ?thesis by (simp add: Let_def)
qed

text \<open>
  C4 (as stated): the update is claimed for every agent with a persisted row.  The
  lookup goes through the cache, which holds the hundred most used agents and those
  created since; for a persisted agent that is not in it \<open>evolveAgent\<close> fails and the row
  keeps usage_count 3 and success_rate 0.5.
\<close>

theorem evolveAgent_uncached_row_counterexample:
  "map usage_count (db uncached_factory) = [3]
   \<and> map success_rate (db uncached_factory) = [0.5]
   \<and> map row_id (db uncached_factory) = [''vizspecialist_1700000000000'']
   \<and> fst (evolveAgent evolve_env ''vizspecialist_1700000000000''
             \<lparr>success = True, improvements = None\<rparr> uncached_factory) =
       Inl (Error ''Agent vizspecialist_1700000000000 not found'')
   \<and> map usage_count (db (snd (evolveAgent evolve_env ''vizspecialist_1700000000000''
             \<lparr>success = True, improvements = None\<rparr> uncached_factory))) = [3]
   \<and> map success_rate (db (snd (evolveAgent evolve_env ''vizspecialist_1700000000000''
             \<lparr>success = True, improvements = None\<rparr> uncached_factory))) = [0.5]"
proof -
  have c: "agentCache uncached_factory ''vizspecialist_1700000000000'' = None"
    by (simp add: uncached_factory_def)
  have d: "db uncached_factory =
      [(row_of_agent stored_agent)\<lparr>usage_count := 3, success_rate := 0.5\<rparr>]"
    by (simp add: uncached_factory_def stored_factory_def)
  have i: "row_id (row_of_agent stored_agent) = ''vizspecialist_1700000000000''"
    by (simp add: row_of_agent_def stored_agent_def)
  show ?thesis
    by (simp add: evolveAgent_not_cached [OF c] d i)
qed

text \<open>
  C10: when \<open>evolveAgent\<close> is called with the id of a cached agent and a non-empty list
  of improvements and returns the evolved agent, the evolved agent is the original with
  a new id \<open><id>-v<epochMs>\<close>, the improved prompt and a new creation time; the
  table is the table after the statistics update with one row appended, which carries
  the evolved id, the original's name, domain, expertise, capabilities and task context,
  the improved prompt, and usage_count 0 and success_rate 0; the statistics update
  leaves every row with another id as it was, and the evolved id differs from the
  original id.
\<close>

theorem evolveAgent_evolved_row:
  "agentCache st agentId = Some agent \<Longrightarrow> agent_id agent = agentId \<Longrightarrow>
   improvements fb = Some imps \<Longrightarrow> imps \<noteq> [] \<Longrightarrow>
   evolveAgent env agentId fb st = (Inr evolved, st') \<Longrightarrow>
   (\<exists>improvedPrompt. improve_response env = Inr improvedPrompt
      \<and> evolved = agent\<lparr>agent_id := agentId @ ''-v'' @ decimal (date_now env),
                         agent_prompt := improvedPrompt, createdAt := new_date env\<rparr>
      \<and> db st' = db (updateSuccessRate agentId (success fb) st) @
           [\<lparr>row_id = agentId @ ''-v'' @ decimal (date_now env),
             row_name = agent_name agent, row_domain = agent_domain agent,
             row_expertise = agent_expertise agent, row_prompt = improvedPrompt,
             row_capabilities = agent_capabilities agent, created_at = new_date env,
             task_context = taskContext agent, usage_count = 0, success_rate = 0\<rparr>])
   \<and> filter (\<lambda>r. row_id r \<noteq> agentId) (db (updateSuccessRate agentId (success fb) st)) =
     filter (\<lambda>r. row_id r \<noteq> agentId) (db st)
   \<and> agentId @ ''-v'' @ decimal (date_now env) \<noteq> agentId"
proof -
  assume c: "agentCache st agentId = Some agent" and i: "agent_id agent = agentId"
    and f: "improvements fb = Some imps" and n: "imps \<noteq> []"
    and e: "evolveAgent env agentId fb st = (Inr evolved, st')"
  let ?st1 = "updateSuccessRate agentId (success fb) st"
  from e c f n obtain improvedPrompt st2 where
    p: "improve_response env = Inr improvedPrompt" and
    ev: "evolved = agent\<lparr>agent_id := agent_id agent @ ''-v'' @ decimal (date_now env),
                         agent_prompt := improvedPrompt, createdAt := new_date env\<rparr>" and
    s: "storeAgent evolved ?st1 = Inr st2" and
    st': "st' = st2\<lparr>agentCache := (agentCache st2)(agent_id evolved \<mapsto> evolved)\<rparr>"
    by (auto simp: evolveAgent_def Let_def split: sum.splits)
  from storeAgent_Inr [OF s] st'
  have "db st' = db ?st1 @ [row_of_agent evolved]" by simp
  then have d: "db st' = db ?st1 @
           [\<lparr>row_id = agentId @ ''-v'' @ decimal (date_now env),
             row_name = agent_name agent, row_domain = agent_domain agent,
             row_expertise = agent_expertise agent, row_prompt = improvedPrompt,
             row_capabilities = agent_capabilities agent, created_at = new_date env,
             task_context = taskContext agent, usage_count = 0, success_rate = 0\<rparr>]"
    by (simp add: row_of_agent_def ev i)
  have ne: "agentId @ ''-v'' @ decimal (date_now env) \<noteq> agentId"
    by simp
  from p ev i d ne updateSuccessRate_others [of agentId "success fb" st]
  show ?thesis by blast
qed

lemma updateSuccessRate_ids:
  "map row_id (db (updateSuccessRate agentId succ st)) = map row_id (db st)"
  by (simp add: updateSuccessRate_def split: option.splits)

lemma storeAgent_fresh:
  "agent_id agent \<notin> set (map row_id (db st)) \<Longrightarrow>
   storeAgent agent st = Inr (st\<lparr>db := db st @ [row_of_agent agent]\<rparr>)"
  by (auto simp: storeAgent_def list_ex_iff image_iff)

lemma evolveAgent_runs:
  assumes "agentCache st agentId = Some agent" and "improvements fb = Some imps" and "imps \<noteq> []"
    and "improve_response env = Inr improvedPrompt"
    and "agent_id agent @ ''-v'' @ decimal (date_now env) \<notin> set (map row_id (db st))"
  shows "\<exists>st'. evolveAgent env agentId fb st =
     (Inr (agent\<lparr>agent_id := agent_id agent @ ''-v'' @ decimal (date_now env),
                 agent_prompt := improvedPrompt, createdAt := new_date env\<rparr>), st')"
proof -
  let ?ev = "agent\<lparr>agent_id := agent_id agent @ ''-v'' @ decimal (date_now env),
                 agent_prompt := improvedPrompt, createdAt := new_date env\<rparr>"
  let ?st1 = "updateSuccessRate agentId (success fb) st"
  have "agent_id ?ev \<notin> set (map row_id (db ?st1))"
    using assms(5) by (simp only: updateSuccessRate_ids) simp
  then have "storeAgent ?ev ?st1 = Inr (?st1\<lparr>db := db ?st1 @ [row_of_agent ?ev]\<rparr>)"
    by (rule storeAgent_fresh)
  then show ?thesis
    using assms(1-4) by (simp add: evolveAgent_def Let_def)
qed

theorem evolveAgent_evolved_row_witness:
  "\<exists>ev st'. evolveAgent evolve_env ''vizspecialist_1700000000000''
              \<lparr>success = True, improvements = Some [''be concise'']\<rparr> stored_factory = (Inr ev, st')
     \<and> map row_id (db st') =
         [''vizspecialist_1700000000000'', ''vizspecialist_1700000000000-v1700000000500'']
     \<and> map usage_count (db st') = [4, 0]
     \<and> map success_rate (db st') = [0.625, 0]"
proof -
  let ?fb = "\<lparr>success = True, improvements = Some [''be concise'']\<rparr>"
  let ?id = "''vizspecialist_1700000000000''"
  have dec: "decimal 1700000000500 = ''1700000000500''"
    by (simp add: decimal.simps digit_char_def)
  have c: "agentCache stored_factory ?id = Some stored_agent"
    by (simp add: stored_factory_def)
  have i: "agent_id stored_agent = ?id" by (simp add: stored_agent_def)
  have fresh: "agent_id stored_agent @ ''-v'' @ decimal (date_now evolve_env)
      \<notin> set (map row_id (db stored_factory))"
    by (simp add: stored_factory_def row_of_agent_def)
  obtain st' where run: "evolveAgent evolve_env ?id ?fb stored_factory =
     (Inr (stored_agent\<lparr>agent_id := agent_id stored_agent @ ''-v'' @ decimal (date_now evolve_env),
                 agent_prompt := ''You are a sharper specialist in viz.'',
                 createdAt := new_date evolve_env\<rparr>), st')"
    using evolveAgent_runs [OF c, of ?fb "[''be concise'']" evolve_env
        "''You are a sharper specialist in viz.''"] fresh
    by (auto simp: evolve_env_def)
  have u: "db (updateSuccessRate ?id True stored_factory) =
      [(row_of_agent stored_agent)\<lparr>success_rate := 0.625, usage_count := 4\<rparr>]"
    by (simp add: updateSuccessRate_def stored_factory_def row_of_agent_def i
          newSuccessRate_def)
  from evolveAgent_evolved_row [OF c i _ _ run, of "[''be concise'']"]
  have "db st' = db (updateSuccessRate ?id True stored_factory) @
           [\<lparr>row_id = ?id @ ''-v'' @ decimal (date_now evolve_env),
             row_name = agent_name stored_agent, row_domain = agent_domain stored_agent,
             row_expertise = agent_expertise stored_agent,
             row_prompt = ''You are a sharper specialist in viz.'',
             row_capabilities = agent_capabilities stored_agent, created_at = new_date evolve_env,
             task_context = taskContext stored_agent, usage_count = 0, success_rate = 0\<rparr>]"
    by (auto simp: evolve_env_def)
  then have "map row_id (db st') = [?id, ''vizspecialist_1700000000000-v1700000000500'']
     \<and> map usage_count (db st') = [4, 0] \<and> map success_rate (db st') = [0.625, 0]"
    by (simp add: u dec evolve_env_def row_of_agent_def i)
  then show ?thesis by (simp add: run)
qed










section \<open>Properties of the memory store\<close>

lemma join_eq_Nil: "x \<noteq> [] \<Longrightarrow> join sep (x # xs) \<noteq> []"
  by (cases xs) simp_all

lemma where_clause_Nil: "where_clause kwds = [] \<longleftrightarrow> kwds = []"
proof (cases kwds)
  case Nil
  then show ?thesis by (simp add: where_clause_def)
next
  case (Cons k ks)
  have "join '' OR '' (''LOWER(task) LIKE ?'' # map (\<lambda>_. ''LOWER(task) LIKE ?'') ks) \<noteq> []"
    by (rule join_eq_Nil) simp
  with Cons show ?thesis by (simp add: where_clause_def)
qed

lemma long_words_Nil:
  "filter (\<lambda>w. length w > 3) ws = [] \<longleftrightarrow> (\<forall>w \<in> set ws. length w \<le> 3)"
  by (auto simp: filter_empty_conv not_less)

text \<open>
  C9 (amended): when no piece of the lower-cased task text between single space
  characters is longer than 3 characters, the keyword list is empty, the WHERE clause of
  the query is empty and \<open>findRelevantSuccesses\<close> fails with the query error; when some
  piece is longer than 3 characters it returns a list of at most 3 entries, the empty
  list on an empty table.
\<close>

theorem findRelevantSuccesses_no_keyword:
  "((\<forall>w \<in> set (split_space (toLowerCase task)). length w \<le> 3) \<longrightarrow>
      findRelevantSuccesses task rows =
        Inl (Error (''Failed to query memories: '' @ syntax_error_near_ORDER)))
   \<and> (\<not> (\<forall>w \<in> set (split_space (toLowerCase task)). length w \<le> 3) \<longrightarrow>
      (\<exists>found. findRelevantSuccesses task rows = Inr found \<and> length found \<le> 3
         \<and> (rows = [] \<longrightarrow> found = [])))"
proof -
  let ?kws = "filter (\<lambda>w. length w > 3) (split_space (toLowerCase task))"
  have a: "findRelevantSuccesses task rows =
        Inl (Error (''Failed to query memories: '' @ syntax_error_near_ORDER))"
    if "\<forall>w \<in> set (split_space (toLowerCase task)). length w \<le> 3"
  proof -
    from that have "?kws = []" using long_words_Nil by blast
    then show ?thesis
      by (simp add: findRelevantSuccesses_def Let_def sqlite_all_def where_clause_def)
  qed
  have b: "\<exists>found. findRelevantSuccesses task rows = Inr found \<and> length found \<le> 3
         \<and> (rows = [] \<longrightarrow> found = [])"
    if "\<not> (\<forall>w \<in> set (split_space (toLowerCase task)). length w \<le> 3)"
  proof -
    from that have "?kws \<noteq> []" using long_words_Nil by blast
    then have "where_clause ?kws \<noteq> []" using where_clause_Nil by blast
    then show ?thesis
      by (simp add: findRelevantSuccesses_def Let_def sqlite_all_def)
  qed
  from a b show ?thesis by blast
qed

theorem findRelevantSuccesses_no_keyword_witness:
  "findRelevantSuccesses ''fix the css'' [] =
     Inl (Error (''Failed to query memories: '' @ syntax_error_near_ORDER))
   \<and> findRelevantSuccesses ''build chart tool'' [] = Inr []"
proof -
  have s: "\<forall>w \<in> set (split_space (toLowerCase ''fix the css'')). length w \<le> 3"
    by code_simp
  have l: "\<not> (\<forall>w \<in> set (split_space (toLowerCase ''build chart tool'')). length w \<le> 3)"
    by code_simp
  from findRelevantSuccesses_no_keyword [of "''fix the css''" "[]"] s
  have a: "findRelevantSuccesses ''fix the css'' [] =
     Inl (Error (''Failed to query memories: '' @ syntax_error_near_ORDER))" by blast
  from findRelevantSuccesses_no_keyword [of "''build chart tool''" "[]"] l
  have b: "findRelevantSuccesses ''build chart tool'' [] = Inr []" by auto
  from a b show ?thesis by blast
qed

text \<open>
  C9 (as stated): the failure is claimed for every task whose whitespace-separated words
  all have at most 3 characters.  The code splits at the space character only: in
  "fix<TAB>css" both words have 3 characters, the one piece has 7, the query is well
  formed and the result on an empty table is the empty list.
\<close>

theorem findRelevantSuccesses_tab_separated_counterexample:
  "list_all (\<lambda>w. length w \<le> 3) (whitespace_words (''fix'' @ [CHR 0x09] @ ''css''))
   \<and> findRelevantSuccesses (''fix'' @ [CHR 0x09] @ ''css'') [] = Inr []"
  by code_simp

section \<open>Properties of the orchestrator\<close>

lemma track_memory [simp]:
  "sessionMemory (track i w) = sessionMemory w" "memories (track i w) = memories w"
  by (simp_all add: track_def)

lemma conceptRounds_memory:
  "sessionMemory (snd (conceptRounds env rounds philosophy w)) = sessionMemory w
   \<and> memories (snd (conceptRounds env rounds philosophy w)) = memories w"
proof (induction rounds arbitrary: philosophy w)
  case Nil
  then show ?case by simp
next
  case (Cons rnd rounds)
  show ?case
    by (simp add: Let_def Cons.IH split: sum.splits option.splits)
qed

lemma interactiveTaskAnalysis_world: "snd (interactiveTaskAnalysis env p w) = w"
  by (simp add: interactiveTaskAnalysis_def split: sum.splits)

lemma developConcept_memory:
  "sessionMemory (snd (developConcept env tctx w)) = sessionMemory w
   \<and> memories (snd (developConcept env tctx w)) = memories w"
  unfolding developConcept_def by (rule conceptRounds_memory)

lemma translateToSpec_memory:
  "sessionMemory (snd (translateToSpec env ph tctx w)) = sessionMemory w
   \<and> memories (snd (translateToSpec env ph tctx w)) = memories w"
  by (simp add: translateToSpec_def Let_def split: sum.splits)

lemma formatOutput_memory:
  "sessionMemory (snd (formatOutput env ph sp tctx w)) = sessionMemory w
   \<and> memories (snd (formatOutput env ph sp tctx w)) = memories w"
  by (simp add: formatOutput_def Let_def split: sum.splits prod.splits)

lemma formatOutput_saved:
  "formatOutput env ph sp tctx w = (Inr path, w3) \<Longrightarrow> \<exists>c. files (filesys w3) path = Some c"
  by (auto simp: formatOutput_def Let_def split: sum.splits prod.splits
           dest!: saveOutput_success)

lemma phases_memory:
  "sessionMemory (snd (phases_0_to_3 env p w)) = sessionMemory w
   \<and> memories (snd (phases_0_to_3 env p w)) = memories w"
proof -
  obtain r0 w0 where a: "interactiveTaskAnalysis env p w = (r0, w0)"
    by (cases "interactiveTaskAnalysis env p w")
  then have w0: "w0 = w" using interactiveTaskAnalysis_world [of env p w] by simp
  show ?thesis
  proof (cases r0)
    case (Inl e)
    with a w0 show ?thesis by (simp add: phases_0_to_3_def)
  next
    case (Inr tctx)
    obtain r1 w1 where b: "developConcept env tctx w = (r1, w1)"
      by (cases "developConcept env tctx w")
    then have m1: "sessionMemory w1 = sessionMemory w" "memories w1 = memories w"
      using developConcept_memory [of env tctx w] by simp_all
    show ?thesis
    proof (cases r1)
      case (Inl e)
      with a w0 Inr b m1 show ?thesis by (simp add: phases_0_to_3_def)
    next
      case ph: (Inr ph)
      obtain r2 w2 where c: "translateToSpec env ph tctx w1 = (r2, w2)"
        by (cases "translateToSpec env ph tctx w1")
      then have m2: "sessionMemory w2 = sessionMemory w" "memories w2 = memories w"
        using translateToSpec_memory [of env ph tctx w1] m1 by simp_all
      show ?thesis
      proof (cases r2)
        case (Inl e)
        with a w0 Inr b ph c m2 show ?thesis by (simp add: phases_0_to_3_def)
      next
        case sp: (Inr sp)
        obtain r3 w3 where d: "formatOutput env ph sp tctx w2 = (r3, w3)"
          by (cases "formatOutput env ph sp tctx w2")
        then have m3: "sessionMemory w3 = sessionMemory w" "memories w3 = memories w"
          using formatOutput_memory [of env ph sp tctx w2] m2 by simp_all
        from a w0 Inr b ph c sp d m3 show ?thesis
          by (cases r3) (simp_all add: phases_0_to_3_def)
      qed
    qed
  qed
qed

lemma phases_saved:
  "phases_0_to_3 env p w = (Inr (tctx, ph, sp, path), w3) \<Longrightarrow>
   \<exists>c. files (filesys w3) path = Some c"
  by (auto simp: phases_0_to_3_def split: sum.splits prod.splits dest: formatOutput_saved)

lemma run_phase_failure:
  "phases_0_to_3 env p w = (Inl e, w') \<Longrightarrow> run env p w = (Inl e, w')"
  by (simp add: run_def)

lemma storeSuccess_session:
  "sessionMemory (snd (storeSuccess menv task ph sp w)) =
     sessionMemory w @ [\<lparr>entry_task = task, entry_philosophy = ph, entry_spec = sp,
                            entry_timestamp = store_time menv\<rparr>]"
  by (simp add: storeSuccess_def Let_def split: option.splits)

lemma run_after_phases:
  "phases_0_to_3 env p w = (Inr (tctx, ph, sp, path), w3) \<Longrightarrow>
   snd (run env p w) = snd (storeSuccess (mem_env env) (ctx_task tctx) ph sp w3)"
  by (simp add: run_def Let_def split: prod.splits sum.splits)

text \<open>
  C8: when one of the phases 0 to 3 fails, the run fails with that error and leaves the
  session memory list and the persistent memories table as they were; and a run that
  changes either of them has completed phases 0 to 3, with the output file saved and the
  memory still untouched at that point.
\<close>

theorem run_stores_only_after_phase_3:
  "(fst (phases_0_to_3 env p w) = Inl e \<longrightarrow>
      fst (run env p w) = Inl e
      \<and> sessionMemory (snd (run env p w)) = sessionMemory w
      \<and> memories (snd (run env p w)) = memories w)
   \<and> (sessionMemory (snd (run env p w)) \<noteq> sessionMemory w
       \<or> memories (snd (run env p w)) \<noteq> memories w \<longrightarrow>
      (\<exists>tctx ph sp path w3.
         phases_0_to_3 env p w = (Inr (tctx, ph, sp, path), w3)
         \<and> (\<exists>c. files (filesys w3) path = Some c)
         \<and> sessionMemory w3 = sessionMemory w \<and> memories w3 = memories w))"
proof -
  obtain r w' where ph: "phases_0_to_3 env p w = (r, w')"
    by (cases "phases_0_to_3 env p w")
  have m: "sessionMemory w' = sessionMemory w" "memories w' = memories w"
    using phases_memory [of env p w] ph by simp_all
  show ?thesis
  proof (cases r)
    case (Inl e')
    with ph have "run env p w = (Inl e', w')" by (simp add: run_phase_failure)
    with ph Inl m show ?thesis by simp
  next
    case (Inr x)
    obtain tctx ph' sp path where x: "x = (tctx, ph', sp, path)" by (cases x)
    from ph Inr x have ok: "phases_0_to_3 env p w = (Inr (tctx, ph', sp, path), w')" by simp
    from phases_saved [OF ok] obtain c where "files (filesys w') path = Some c" by blast
    with ok m have "\<exists>tctx ph sp path w3.
         phases_0_to_3 env p w = (Inr (tctx, ph, sp, path), w3)
         \<and> (\<exists>c. files (filesys w3) path = Some c)
         \<and> sessionMemory w3 = sessionMemory w \<and> memories w3 = memories w"
      by blast
    moreover from ph Inr have "fst (phases_0_to_3 env p w) \<noteq> Inl e" by simp
    ultimately show ?thesis by blast
  qed
qed

lemma conceptRounds_succeeds:
  assumes "\<And>label. \<exists>reply. llm env label = Inr reply"
    and "\<And>label. user_feedback env label = Inr None"
  shows "\<exists>ph w'. conceptRounds env rounds philosophy w = (Inr ph, w')"
proof (induction rounds arbitrary: philosophy w)
  case Nil
  then show ?case by simp
next
  case (Cons rnd rounds)
  obtain reply where r: "llm env (focus rnd) = Inr reply" using assms(1) by blast
  show ?case
    using Cons.IH by (simp add: r assms(2) Let_def)
qed

lemma saveOutput_succeeds:
  "mkdir_failure fenv = None \<Longrightarrow> writeFile_failure fenv = None \<Longrightarrow>
   \<exists>path filesys'. saveOutput fenv t c fs0 = (Inr path, filesys')"
  by (simp add: saveOutput_def Let_def mkdir_recursive_def writeFile_def)

lemma phases_succeed:
  assumes ask: "ask_result env = Inr responses"
    and seeds: "findRelevantSuccesses p (memories w) = Inr seeds"
    and llm: "\<And>label. \<exists>reply. llm env label = Inr reply"
    and fb: "\<And>label. user_feedback env label = Inr None"
    and mk: "mkdir_failure (output_env env) = None"
    and wr: "writeFile_failure (output_env env) = None"
  shows "\<exists>tctx ph sp path w3. phases_0_to_3 env p w = (Inr (tctx, ph, sp, path), w3)"
proof -
  let ?tctx = "\<lparr>ctx_task = p, outputType = inferOutputType p,
                 constraints = resp_constraints responses,
                 preferences = resp_preferences responses, inspirationSeeds = seeds\<rparr>"
  have a: "interactiveTaskAnalysis env p w = (Inr ?tctx, w)"
    by (simp add: interactiveTaskAnalysis_def ask seeds)
  obtain ph w1 where b: "developConcept env ?tctx w = (Inr ph, w1)"
    unfolding developConcept_def using conceptRounds_succeeds [OF llm fb] by blast
  obtain reply2 where l2: "llm env ''technical_specification'' = Inr reply2"
    using llm by blast
  then obtain sp w2 where c: "translateToSpec env ph ?tctx w1 = (Inr sp, w2)"
    by (simp add: translateToSpec_def Let_def)
  obtain reply3 where l3: "llm env ''claude_code_instructions'' = Inr reply3"
    using llm by blast
  let ?w2' = "track \<lparr>expertName = ''OutputGenerator'',
                           round_key = ''claude_code_instructions'', callCount = 1,
                           insights = [''Generated final implementation guide''],
                           responseId = None\<rparr> w2"
  obtain path filesys' where s: "saveOutput (output_env env) p (reply_content reply3) (filesys ?w2') = (Inr path, filesys')"
    using saveOutput_succeeds [OF mk wr] by blast
  have d: "formatOutput env ph sp ?tctx w2 = (Inr path, ?w2'\<lparr>filesys := filesys'\<rparr>)"
    by (simp add: formatOutput_def l3 Let_def s)
  show ?thesis
    by (simp add: phases_0_to_3_def a b c d)
qed

theorem run_stores_only_after_phase_3_witness:
  "fst (run closed_terminal ''build chart tool'' fresh_world) =
      Inl (Error ''Failed to get input: closed'')
   \<and> sessionMemory (snd (run closed_terminal ''build chart tool'' fresh_world)) = []
   \<and> memories (snd (run closed_terminal ''build chart tool'' fresh_world)) = []
   \<and> sessionMemory (snd (run smooth_session ''build chart tool'' fresh_world)) \<noteq> []
   \<and> (\<exists>tctx ph sp path w3.
         phases_0_to_3 smooth_session ''build chart tool'' fresh_world =
           (Inr (tctx, ph, sp, path), w3)
         \<and> (\<exists>c. files (filesys w3) path = Some c))"
proof -
  let ?p = "''build chart tool''"
  have f: "fst (phases_0_to_3 closed_terminal ?p fresh_world) =
      Inl (Error ''Failed to get input: closed'')"
    by (simp add: phases_0_to_3_def interactiveTaskAnalysis_def closed_terminal_def)
  from run_stores_only_after_phase_3
    [of closed_terminal ?p fresh_world "Error ''Failed to get input: closed''"] f
  have a: "fst (run closed_terminal ?p fresh_world) = Inl (Error ''Failed to get input: closed'')
      \<and> sessionMemory (snd (run closed_terminal ?p fresh_world)) = []
      \<and> memories (snd (run closed_terminal ?p fresh_world)) = []"
    by (simp add: fresh_world_def)
  have seeds: "findRelevantSuccesses ?p (memories fresh_world) = Inr []"
    unfolding fresh_world_def by code_simp
  have "\<exists>tctx ph sp path w3. phases_0_to_3 smooth_session ?p fresh_world =
      (Inr (tctx, ph, sp, path), w3)"
    by (rule phases_succeed [OF _ seeds])
       (simp_all add: smooth_session_def closed_terminal_def example_env_def)
  then obtain tctx ph sp path w3 where ok:
    "phases_0_to_3 smooth_session ?p fresh_world = (Inr (tctx, ph, sp, path), w3)"
    by blast
  have sm: "sessionMemory (snd (run smooth_session ?p fresh_world)) =
      sessionMemory w3 @ [\<lparr>entry_task = ctx_task tctx, entry_philosophy = ph, entry_spec = sp,
                             entry_timestamp = store_time (mem_env smooth_session)\<rparr>]"
    by (simp add: run_after_phases [OF ok] storeSuccess_session)
  have "sessionMemory w3 = sessionMemory fresh_world"
    using phases_memory [of smooth_session ?p fresh_world] ok by simp
  with sm
  have "sessionMemory (snd (run smooth_session ?p fresh_world)) \<noteq> sessionMemory fresh_world"
    by simp
  with run_stores_only_after_phase_3 [of smooth_session ?p fresh_world]
  have b: "\<exists>tctx ph sp path w3.
         phases_0_to_3 smooth_session ?p fresh_world = (Inr (tctx, ph, sp, path), w3)
         \<and> (\<exists>c. files (filesys w3) path = Some c)"
    by blast
  have c: "sessionMemory (snd (run smooth_session ?p fresh_world)) \<noteq> []"
    using sm by simp
  from a b c show ?thesis by blast
qed

text \<open>
  When the insert into the table fails, the run fails after Phase 3 and the entry
  already pushed to the session list stays there.
\<close>

lemma storeSuccess_insert_failure:
  "insert_failure menv = Some cause \<Longrightarrow>
   storeSuccess menv task ph sp w =
     (Inl (Error (''Failed to store memory: '' @ cause)),
      w\<lparr>sessionMemory := sessionMemory w @
            [\<lparr>entry_task = task, entry_philosophy = ph, entry_spec = sp,
              entry_timestamp = store_time menv\<rparr>]\<rparr>)"
  by (simp add: storeSuccess_def Let_def)

end
